theory Spec2Isabelle
  imports Complex_Main "HOL-Library.Char_ord" "HOL-Library.List_Lexorder"
begin

section \<open>Python values\<close>

text \<open>
  Every exception the code can raise is a value of \<open>py_error\<close>; a computation that may
  raise returns \<open>py_error + 'a\<close>, with \<open>Inl\<close> for the exception.
\<close>

datatype py_error =
  ZeroDivisionError | OverflowError | ValueError | KeyError | FileNotFoundError | OSError

text \<open>Sequencing of calls that may raise.\<close>

fun and_then :: "py_error + 'a \<Rightarrow> ('a \<Rightarrow> py_error + 'b) \<Rightarrow> py_error + 'b" where
  "and_then (Inl e) f = Inl e"
| "and_then (Inr x) f = f x"

subsection \<open>Rounding to binary64\<close>

text \<open>
  A Python float is an IEEE 754 binary64 number, and every arithmetic operation gives the
  exact result rounded to the nearest binary64 number, a tie going to the even
  significand. A finite float is given here by its real value. \<open>pow2 e\<close> is \<open>2\<close> to
  the power \<open>e\<close>; \<open>binade x\<close>, for a positive \<open>x\<close>, is the exponent \<open>k\<close> with
  \<open>pow2 k \<le> x < pow2 (k + 1)\<close>; the binary64 numbers of that size are the multiples of
  \<open>pow2 (k - 52)\<close>, and the multiples of \<open>pow2 (- 1074)\<close> when that is more (the
  subnormal numbers). \<open>round64\<close> rounds with an exponent unbounded above; a result of
  magnitude \<open>2 ^ 1024\<close> or more is an overflow, which \<open>rounded\<close> turns into an
  infinity.
\<close>

definition pow2 :: "int \<Rightarrow> real" where
  "pow2 e = (if 0 \<le> e then 2 ^ nat e else 1 / 2 ^ nat (- e))"

function binade :: "real \<Rightarrow> int" where
  "binade x = (if x \<le> 0 then 0 else if 2 \<le> x then binade (x / 2) + 1
               else if x < 1 then binade (2 * x) - 1 else 0)"
  by pat_completeness auto
termination
proof (relation "measure (\<lambda>x. if 1 \<le> x then nat \<lfloor>x\<rfloor> else nat \<lceil>1 / x\<rceil> + 1)")
  show "wf (measure (\<lambda>x::real. if 1 \<le> x then nat \<lfloor>x\<rfloor> else nat \<lceil>1 / x\<rceil> + 1))"
    by simp
next
  fix x :: real
  assume "\<not> x \<le> 0" "2 \<le> x"
  then have "\<lfloor>x / 2\<rfloor> < \<lfloor>x\<rfloor>"
    by (simp add: floor_less_iff) linarith
  moreover have "0 \<le> \<lfloor>x / 2\<rfloor>" using \<open>2 \<le> x\<close> by simp
  ultimately show "(x / 2, x) \<in> measure (\<lambda>x. if 1 \<le> x then nat \<lfloor>x\<rfloor> else nat \<lceil>1 / x\<rceil> + 1)"
    using \<open>2 \<le> x\<close> by simp
next
  fix x :: real
  assume a: "\<not> x \<le> 0" "\<not> 2 \<le> x" "x < 1"
  show "(2 * x, x) \<in> measure (\<lambda>x. if 1 \<le> x then nat \<lfloor>x\<rfloor> else nat \<lceil>1 / x\<rceil> + 1)"
  proof (cases "1 \<le> 2 * x")
    case True
    then have "\<lfloor>2 * x\<rfloor> = 1" using a by (simp add: floor_eq_iff)
    moreover have "1 < 1 / x" using a by simp
    then have "2 \<le> \<lceil>1 / x\<rceil>" by (simp add: le_ceiling_iff)
    ultimately show ?thesis using a True by simp
  next
    case False
    then have "2 < 1 / x" using a by (simp add: field_simps)
    then have "1 / (2 * x) \<le> 1 / x - 1" using a by (simp add: field_simps)
    then have "\<lceil>1 / (2 * x)\<rceil> \<le> \<lceil>1 / x\<rceil> - 1"
      by (metis ceiling_diff_one ceiling_mono)
    moreover have "0 < \<lceil>1 / (2 * x)\<rceil>" using a by (simp add: field_simps)
    ultimately show ?thesis using a False by simp
  qed
qed

declare binade.simps [simp del]

definition round_half_even :: "real \<Rightarrow> int" where
  "round_half_even y =
     (let f = \<lfloor>y\<rfloor>; d = y - of_int f
      in if d < 1 / 2 then f else if 1 / 2 < d then f + 1 else if even f then f else f + 1)"

definition ulp_exponent :: "real \<Rightarrow> int" where
  "ulp_exponent x = max (binade \<bar>x\<bar> - 52) (- 1074)"

definition round64 :: "real \<Rightarrow> real" where
  "round64 x = of_int (round_half_even (x / pow2 (ulp_exponent x))) * pow2 (ulp_exponent x)"

definition overflow_threshold :: real where
  "overflow_threshold = 2 ^ 1024"

text \<open>The real numbers that are finite binary64 numbers.\<close>

definition float64 :: "real \<Rightarrow> bool" where
  "float64 x \<longleftrightarrow> round64 x = x \<and> \<bar>x\<bar> < overflow_threshold"

subsection \<open>Floats and their operations\<close>

text \<open>
  A float is finite, an infinity or a NaN. The two zeros are one value here: the code
  divides by a zero of either sign with the same exception, and neither \<open>int\<close> nor a
  comparison tells them apart. Multiplication follows IEEE 754. Python's \<open>/\<close> raises
  on a zero divisor, whatever the dividend, and follows IEEE 754 otherwise. A comparison
  with a NaN is false. \<open>int\<close> truncates a finite float towards zero, and raises
  \<open>OverflowError\<close> on an infinity and \<open>ValueError\<close> on a NaN.
\<close>

datatype pyfloat = Fin real | PosInf | NegInf | NaN

definition rounded :: "real \<Rightarrow> pyfloat" where
  "rounded x =
     (let r = round64 x
      in if overflow_threshold \<le> r then PosInf
         else if r \<le> - overflow_threshold then NegInf
         else Fin r)"

fun float_mul :: "pyfloat \<Rightarrow> pyfloat \<Rightarrow> pyfloat" where
  "float_mul (Fin a) (Fin b) = rounded (a * b)"
| "float_mul NaN b = NaN"
| "float_mul a NaN = NaN"
| "float_mul (Fin a) PosInf = (if a = 0 then NaN else if 0 < a then PosInf else NegInf)"
| "float_mul (Fin a) NegInf = (if a = 0 then NaN else if 0 < a then NegInf else PosInf)"
| "float_mul PosInf (Fin b) = (if b = 0 then NaN else if 0 < b then PosInf else NegInf)"
| "float_mul NegInf (Fin b) = (if b = 0 then NaN else if 0 < b then NegInf else PosInf)"
| "float_mul PosInf PosInf = PosInf"
| "float_mul PosInf NegInf = NegInf"
| "float_mul NegInf PosInf = NegInf"
| "float_mul NegInf NegInf = PosInf"

fun float_truediv :: "pyfloat \<Rightarrow> pyfloat \<Rightarrow> py_error + pyfloat" where
  "float_truediv a (Fin b) =
     (if b = 0 then Inl ZeroDivisionError
      else case a of
             Fin x \<Rightarrow> Inr (rounded (x / b))
           | PosInf \<Rightarrow> Inr (if 0 < b then PosInf else NegInf)
           | NegInf \<Rightarrow> Inr (if 0 < b then NegInf else PosInf)
           | NaN \<Rightarrow> Inr NaN)"
| "float_truediv (Fin a) PosInf = Inr (Fin 0)"
| "float_truediv (Fin a) NegInf = Inr (Fin 0)"
| "float_truediv a b = Inr NaN"

fun float_less :: "pyfloat \<Rightarrow> pyfloat \<Rightarrow> bool" where
  "float_less (Fin a) (Fin b) \<longleftrightarrow> a < b"
| "float_less (Fin a) PosInf \<longleftrightarrow> True"
| "float_less NegInf (Fin b) \<longleftrightarrow> True"
| "float_less NegInf PosInf \<longleftrightarrow> True"
| "float_less a b \<longleftrightarrow> False"

fun py_int :: "pyfloat \<Rightarrow> py_error + int" where
  "py_int (Fin x) = Inr (if 0 \<le> x then \<lfloor>x\<rfloor> else \<lceil>x\<rceil>)"
| "py_int PosInf = Inl OverflowError"
| "py_int NegInf = Inl OverflowError"
| "py_int NaN = Inl ValueError"

subsection \<open>Slices\<close>

text \<open>
  Slices with a negative bound, for a bound \<open>k > 0\<close>: \<open>xs[:-k]\<close> and \<open>xs[-k:]\<close>.
  A list shorter than \<open>k\<close> gives the empty list and the whole list.
\<close>

definition slice_upto_neg :: "nat \<Rightarrow> 'a list \<Rightarrow> 'a list" where
  "slice_upto_neg k xs = take (length xs - k) xs"

definition slice_from_neg :: "nat \<Rightarrow> 'a list \<Rightarrow> 'a list" where
  "slice_from_neg k xs = drop (length xs - k) xs"

section \<open>MLStrategy\<close>

text \<open>
  The strategy's parameters (\<open>params\<close>; the model is passed on its own, as the function
  \<open>predict\<close>), the fields that \<open>next\<close> reads and writes (\<open>self.data.close\<close> up to the
  current bar, \<open>self.predicted_prices\<close>), and what the broker shows at the bar:
  the size of \<open>self.position\<close> (the position is truthy when its size is not zero) and
  \<open>self.broker.getvalue()\<close>. Prices, predictions, the value and the risk percent are
  floats.
\<close>

record params =
  lookback :: nat
  risk_percent :: pyfloat

record strategy =
  data_close :: "pyfloat list"
  predicted_prices :: "pyfloat list"

record broker_view =
  position :: int
  getvalue :: pyfloat

text \<open>The calls \<open>next\<close> makes on the broker: \<open>self.buy(size=size)\<close> and \<open>self.close()\<close>.\<close>

datatype order_call = Buy int | ClosePosition

text \<open>
  The sizing of an entry, lines 60-61 of the notebook:
  \<^verbatim>\<open>risk_amount = self.broker.getvalue() * (self.p.risk_percent / 100)\<close>,
  \<^verbatim>\<open>size = int(risk_amount / current_price)\<close>.
  Each of the three operations is rounded, and \<open>int\<close> truncates the rounded quotient.
\<close>

definition entry_size :: "pyfloat \<Rightarrow> pyfloat \<Rightarrow> pyfloat \<Rightarrow> py_error + int" where
  "entry_size equity_value risk_pct current_price =
     and_then (float_truediv risk_pct (Fin 100)) (\<lambda>fraction.
       let risk_amount = float_mul equity_value fraction
       in and_then (float_truediv risk_amount current_price) py_int)"

text \<open>
  \<open>MLStrategy.next\<close>. The result is the strategy after the call (the prediction is
  appended before anything that follows can raise) and either the exception raised or
  the order call made, if any. \<open>prediction > prev_pred\<close> is \<open>float_less prev_pred prediction\<close>.
\<close>

definition MLStrategy_next ::
  "params \<Rightarrow> (pyfloat list \<Rightarrow> py_error + pyfloat) \<Rightarrow> broker_view \<Rightarrow> strategy
     \<Rightarrow> strategy \<times> (py_error + order_call option)" where
  "MLStrategy_next p predict b s =
     (if length (data_close s) < lookback p then (s, Inr None)
      else
        let window = slice_from_neg (lookback p) (data_close s)
        in case predict window of
             Inl e \<Rightarrow> (s, Inl e)
           | Inr prediction \<Rightarrow>
               let s' = s\<lparr>predicted_prices := predicted_prices s @ [prediction]\<rparr>
               in if length (predicted_prices s') < 2 then (s', Inr None)
                  else
                    let current_price = last (data_close s);
                        prev_pred = predicted_prices s' ! (length (predicted_prices s') - 2)
                    in if float_less prev_pred prediction \<and> \<not> (position b \<noteq> 0) then
                         (case entry_size (getvalue b) (risk_percent p) current_price of
                            Inl e \<Rightarrow> (s', Inl e)
                          | Inr sz \<Rightarrow> (s', Inr (Some (Buy sz))))
                       else if float_less prediction prev_pred \<and> position b \<noteq> 0 then
                         (s', Inr (Some ClosePosition))
                       else (s', Inr None))"

text \<open>
  What the two calls place with the broker. This is backtrader's \<open>Strategy.buy\<close> and
  \<open>Strategy.close\<close>, library code that the notebook calls: \<open>buy\<close> with a size of 0
  places no order and returns \<open>None\<close>, and with another size places a market order to
  buy the absolute value of the size; \<open>close\<close> sells the whole position when it is
  long, buys it back when it is short, and places nothing when there is none.
  \<open>submitted\<close> is the order placed by the call of a bar, given the size of the position.
\<close>

datatype order = BuyOrder nat | SellOrder nat

definition Strategy_buy :: "int \<Rightarrow> order option" where
  "Strategy_buy sz = (if sz = 0 then None else Some (BuyOrder (nat \<bar>sz\<bar>)))"

definition Strategy_close :: "int \<Rightarrow> order option" where
  "Strategy_close possize =
     (if 0 < possize then Some (SellOrder (nat possize))
      else if possize < 0 then Some (BuyOrder (nat \<bar>possize\<bar>))
      else None)"

fun submitted :: "int \<Rightarrow> order_call option \<Rightarrow> order option" where
  "submitted possize None = None"
| "submitted possize (Some (Buy sz)) = Strategy_buy sz"
| "submitted possize (Some ClosePosition) = Strategy_close possize"

text \<open>
  The driver: for each bar of the feed the close is appended to the data and \<open>next\<close> is
  called with the broker's view at that bar; an exception ends the run. The result is the
  strategy at the end, the order call of every bar processed, and the exception, if any.
\<close>

record bar =
  close :: pyfloat
  view :: broker_view

fun run ::
  "params \<Rightarrow> (pyfloat list \<Rightarrow> py_error + pyfloat) \<Rightarrow> bar list \<Rightarrow> strategy
     \<Rightarrow> strategy \<times> order_call option list \<times> py_error option" where
  "run p predict [] s = (s, [], None)"
| "run p predict (b # bs) s =
     (case MLStrategy_next p predict (view b) (s\<lparr>data_close := data_close s @ [close b]\<rparr>) of
        (s', Inl e) \<Rightarrow> (s', [], Some e)
      | (s', Inr call) \<Rightarrow>
          (case run p predict bs s' of (s'', calls, err) \<Rightarrow> (s'', call # calls, err)))"

definition init_strategy :: strategy where
  "init_strategy = \<lparr>data_close = [], predicted_prices = []\<rparr>"

section \<open>EnhancedDataPipeline: normalization and method selection\<close>

subsection \<open>The library calls\<close>

text \<open>
  The closes of a file are finite binary64 numbers, given by their real values. The
  scalers, the logarithm and the power are the exact functions of real numbers: how numpy
  and scipy round them is outside the model. The shift \<^verbatim>\<open>X + 1e-6\<close> of the Box-Cox and
  Log branches is rounded as the code rounds it (it decides whether the shifted data are
  constant, and so whether Box-Cox accepts them): \<open>float_1e_6\<close> is the float of the
  literal, and the sum of a close and this float is rounded to binary64.

  \<open>np.log\<close> does not raise on a non-positive argument: it gives \<open>-inf\<close> or
  \<open>nan\<close>. An array element is therefore a finite value or a non-finite one.
\<close>

datatype npfloat = Finite real | NonFinite

definition float_1e_6 :: real where
  "float_1e_6 = round64 (1 / 10 ^ 6)"

definition add_1e_6 :: "real \<Rightarrow> real" where
  "add_1e_6 x = round64 (x + float_1e_6)"

fun is_finite :: "npfloat \<Rightarrow> bool" where
  "is_finite (Finite x) = True"
| "is_finite NonFinite = False"

fun finite_value :: "npfloat \<Rightarrow> real" where
  "finite_value (Finite x) = x"
| "finite_value NonFinite = 0"

definition np_log :: "real \<Rightarrow> npfloat" where
  "np_log x = (if 0 < x then Finite (ln x) else NonFinite)"

definition mean :: "real list \<Rightarrow> real" where
  "mean xs = sum_list xs / real (length xs)"

text \<open>
  scikit-learn's scalers, on one column. An empty column is rejected; a scale of zero
  (a constant column) is replaced by 1, so a constant column is not an error.
  \<open>StandardScaler\<close> divides by the population standard deviation. The fitted
  attributes \<open>mean_\<close>, \<open>var_\<close>, \<open>scale_\<close> and \<open>min_\<close> are \<open>the_mean\<close>,
  \<open>the_var\<close>, \<open>the_scale\<close> and \<open>the_min\<close> here.
\<close>

definition handle_zeros_in_scale :: "real \<Rightarrow> real" where
  "handle_zeros_in_scale s = (if s = 0 then 1 else s)"

definition StandardScaler_fit_transform :: "real list \<Rightarrow> py_error + real list" where
  "StandardScaler_fit_transform X =
     (if X = [] then Inl ValueError
      else
        let the_mean = mean X;
            the_var = mean (map (\<lambda>x. (x - the_mean)\<^sup>2) X);
            the_scale = handle_zeros_in_scale (sqrt the_var)
        in Inr (map (\<lambda>x. (x - the_mean) / the_scale) X))"

definition MinMaxScaler_fit_transform :: "real list \<Rightarrow> py_error + real list" where
  "MinMaxScaler_fit_transform X =
     (if X = [] then Inl ValueError
      else
        let data_min = Min (set X);
            data_max = Max (set X);
            the_scale = 1 / handle_zeros_in_scale (data_max - data_min);
            the_min = 0 - data_min * the_scale
        in Inr (map (\<lambda>x. x * the_scale + the_min) X))"

text \<open>
  \<open>scipy.special.boxcox\<close>, and \<open>scipy.stats.boxcox\<close> called without a lambda:
  the data must be non-constant and positive, the lambda is the maximum-likelihood
  estimate (the parameter \<open>normmax\<close>, an optimiser's result). On an empty array scipy
  returns the array alone, and unpacking it into two names raises.
\<close>

definition special_boxcox :: "real \<Rightarrow> real \<Rightarrow> real" where
  "special_boxcox lmbda x = (if lmbda = 0 then ln x else (x powr lmbda - 1) / lmbda)"

definition stats_boxcox :: "(real list \<Rightarrow> real) \<Rightarrow> real list \<Rightarrow> py_error + real list \<times> real" where
  "stats_boxcox normmax x =
     (if x = [] then Inl ValueError
      else if list_all (\<lambda>v. v = hd x) x then Inl ValueError
      else if list_ex (\<lambda>v. v \<le> 0) x then Inl ValueError
      else let lmax = normmax x in Inr (map (special_boxcox lmax) x, lmax))"

text \<open>
  scikit-learn validates every array it is given: an empty array and an array with a
  non-finite element are rejected.
\<close>

definition check_array :: "npfloat list \<Rightarrow> py_error + real list" where
  "check_array xs =
     (if xs = [] then Inl ValueError
      else if list_all is_finite xs then Inr (map finite_value xs)
      else Inl ValueError)"

text \<open>
  What the pipeline takes from outside: the optimiser of the Box-Cox lambda, the random
  forest (fitting on validated arrays, predicting), the three metrics on validated
  arrays, the \<open>Close\<close> column of an instrument's processed file, and the outcome of
  writing a normalized series to its file (the files themselves are not modelled). The
  forest is randomised: the record fixes the outcome of each call of one run.
\<close>

record 'm library =
  boxcox_normmax :: "real list \<Rightarrow> real"
  forest_fit :: "real list \<Rightarrow> real list \<Rightarrow> py_error + 'm"
  forest_predict :: "'m \<Rightarrow> real list \<Rightarrow> py_error + real list"
  mean_absolute_error :: "real list \<Rightarrow> real list \<Rightarrow> py_error + real"
  mean_squared_error :: "real list \<Rightarrow> real list \<Rightarrow> py_error + real"
  r2_score :: "real list \<Rightarrow> real list \<Rightarrow> py_error + real"
  read_csv :: "string \<Rightarrow> py_error + real list"
  to_csv :: "string \<Rightarrow> string \<Rightarrow> npfloat list \<Rightarrow> py_error + unit"

definition RandomForestRegressor_fit ::
  "'m library \<Rightarrow> npfloat list \<Rightarrow> npfloat list \<Rightarrow> py_error + 'm" where
  "RandomForestRegressor_fit lib X y =
     and_then (check_array X) (\<lambda>X'. and_then (check_array y) (\<lambda>y'. forest_fit lib X' y'))"

definition model_predict :: "'m library \<Rightarrow> 'm \<Rightarrow> npfloat list \<Rightarrow> py_error + real list" where
  "model_predict lib model X = and_then (check_array X) (forest_predict lib model)"

definition score ::
  "(real list \<Rightarrow> real list \<Rightarrow> py_error + real) \<Rightarrow> npfloat list \<Rightarrow> real list \<Rightarrow> py_error + real" where
  "score metric y_true y_pred = and_then (check_array y_true) (\<lambda>y. metric y y_pred)"

subsection \<open>\<open>_evaluate_normalization\<close>\<close>

definition evaluate_normalization ::
  "'m library \<Rightarrow> real list \<Rightarrow> string \<Rightarrow> py_error + npfloat list" where
  "evaluate_normalization lib X method =
     (if method = ''Box-Cox'' then
        and_then (stats_boxcox (boxcox_normmax lib) (map add_1e_6 X))
          (\<lambda>(X_norm, _). Inr (map Finite X_norm))
      else if method = ''Log'' then Inr (map (\<lambda>x. np_log (add_1e_6 x)) X)
      else if method = ''Z-Score'' then
        and_then (StandardScaler_fit_transform X) (\<lambda>X_norm. Inr (map Finite X_norm))
      else and_then (MinMaxScaler_fit_transform X) (\<lambda>X_norm. Inr (map Finite X_norm)))"

subsection \<open>\<open>normalize_data\<close>\<close>

record metrics =
  row_instrument :: string
  row_method :: string
  MAE :: real
  MSE :: real
  R2 :: real

text \<open>
  The quality estimate inside the \<open>try\<close>: the split of the normalized series, the
  fit on the pairs of the training slice, the prediction on the inputs of the tail, and
  the three metrics against the targets of the tail.
\<close>

definition quality :: "'m library \<Rightarrow> npfloat list \<Rightarrow> py_error + real \<times> real \<times> real" where
  "quality lib norm_data =
     (let X_train = slice_upto_neg 30 norm_data;
          X_test = slice_from_neg 30 norm_data
      in and_then (RandomForestRegressor_fit lib (butlast X_train) (tl X_train)) (\<lambda>model.
         and_then (model_predict lib model (butlast X_test)) (\<lambda>pred.
         and_then (score (mean_absolute_error lib) (tl X_test) pred) (\<lambda>mae.
         and_then (score (mean_squared_error lib) (tl X_test) pred) (\<lambda>mse.
         and_then (score (r2_score lib) (tl X_test) pred) (\<lambda>r2.
         Inr (mae, mse, r2)))))))"

text \<open>
  The body of the \<open>try\<close> up to the row of metrics: the normalized series and the row.
\<close>

definition evaluate_method ::
  "'m library \<Rightarrow> string \<Rightarrow> real list \<Rightarrow> string \<Rightarrow> py_error + npfloat list \<times> metrics" where
  "evaluate_method lib instrument data method =
     and_then (evaluate_normalization lib data method) (\<lambda>norm_data.
     and_then (quality lib norm_data) (\<lambda>(mae, mse, r2).
     Inr (norm_data,
       \<lparr>row_instrument = instrument, row_method = method, MAE = mae, MSE = mse, R2 = r2\<rparr>)))"

text \<open>
  The \<open>try\<close> ... \<open>except Exception\<close> around one method: an exception before the row
  is appended leaves \<open>results\<close> as it is. The normalized series is written to its file
  after the row is appended, so an exception of that write leaves the row in \<open>results\<close>.
\<close>

definition try_method ::
  "'m library \<Rightarrow> string \<Rightarrow> real list \<Rightarrow> string \<Rightarrow> metrics list \<Rightarrow> metrics list" where
  "try_method lib instrument data method results =
     (case evaluate_method lib instrument data method of
        Inl e \<Rightarrow> results
      | Inr (norm_data, row) \<Rightarrow>
          let results' = results @ [row]
          in case to_csv lib instrument method norm_data of
               Inl e \<Rightarrow> results'
             | Inr written \<Rightarrow> results')"

definition methods :: "string list" where
  "methods = [''Z-Score'', ''Min-Max'', ''Box-Cox'', ''Log'']"

text \<open>The two loops. Reading an instrument's file is outside the \<open>try\<close>.\<close>

fun collect_results :: "'m library \<Rightarrow> string list \<Rightarrow> metrics list \<Rightarrow> py_error + metrics list" where
  "collect_results lib [] results = Inr results"
| "collect_results lib (instrument # rest) results =
     (case read_csv lib instrument of
        Inl e \<Rightarrow> Inl e
      | Inr data \<Rightarrow>
          collect_results lib rest (fold (try_method lib instrument data) methods results))"

text \<open>
  The choice of the best method:
  \<^verbatim>\<open>df.loc[df.groupby(instrument)['R2'].idxmax()]\<close>.
  A frame built from an empty list has no columns, and grouping it by a column raises
  \<open>KeyError\<close>. The groups come in the sorted order of their keys, each with the row
  labels (here the positions) of its rows in order; \<open>idxmax\<close> gives the first label
  of a maximal value.
\<close>

definition groupby_instrument :: "metrics list \<Rightarrow> (string \<times> nat list) list" where
  "groupby_instrument df =
     map (\<lambda>k. (k, filter (\<lambda>i. row_instrument (df ! i) = k) [0..<length df]))
       (sort (remdups (map row_instrument df)))"

text \<open>A group is never empty, so \<open>idxmax\<close> is given no equation for the empty list.\<close>

fun idxmax :: "(nat \<Rightarrow> real) \<Rightarrow> nat list \<Rightarrow> nat" where
  "idxmax f (i # rest) = fold (\<lambda>j best. if f best < f j then j else best) rest i"

definition select_best :: "metrics list \<Rightarrow> py_error + metrics list" where
  "select_best results =
     (if results = [] then Inl KeyError
      else Inr (map (\<lambda>(k, labels). results ! idxmax (\<lambda>i. R2 (results ! i)) labels)
                  (groupby_instrument results)))"

definition normalize_data :: "'m library \<Rightarrow> string list \<Rightarrow> py_error + metrics list" where
  "normalize_data lib instruments = and_then (collect_results lib instruments []) select_best"

text \<open>
  An exception in one of the four stages inside the \<open>try\<close>: the normalization, the
  fit, the prediction, or one of the three scores.
\<close>

definition stage_raises :: "'m library \<Rightarrow> real list \<Rightarrow> string \<Rightarrow> bool" where
  "stage_raises lib data method =
     (case evaluate_normalization lib data method of
        Inl e \<Rightarrow> True
      | Inr norm_data \<Rightarrow>
          let X_train = slice_upto_neg 30 norm_data;
              X_test = slice_from_neg 30 norm_data
          in case RandomForestRegressor_fit lib (butlast X_train) (tl X_train) of
               Inl e \<Rightarrow> True
             | Inr model \<Rightarrow>
                 (case model_predict lib model (butlast X_test) of
                    Inl e \<Rightarrow> True
                  | Inr pred \<Rightarrow>
                      isl (score (mean_absolute_error lib) (tl X_test) pred)
                      \<or> isl (score (mean_squared_error lib) (tl X_test) pred)
                      \<or> isl (score (r2_score lib) (tl X_test) pred)))"

subsection \<open>An example library\<close>

text \<open>
  A library on which the pipeline can be evaluated: the lambda of Box-Cox is 0, the
  forest predicts its input, the metrics are the mean absolute error, the mean squared
  error and one minus the sum of the squared errors. The processed file of \<open>NVDA\<close> holds
  32 closes of 5, that of \<open>COIN\<close> holds three closes, and no other file exists. Writing
  the series normalized by \<open>Log\<close> fails.
\<close>

definition example_library :: "unit library" where
  "example_library =
     \<lparr>boxcox_normmax = (\<lambda>x. 0),
      forest_fit = (\<lambda>X y. Inr ()),
      forest_predict = (\<lambda>model X. Inr X),
      mean_absolute_error = (\<lambda>y p. Inr (mean (map2 (\<lambda>a b. \<bar>a - b\<bar>) y p))),
      mean_squared_error = (\<lambda>y p. Inr (mean (map2 (\<lambda>a b. (a - b)\<^sup>2) y p))),
      r2_score = (\<lambda>y p. Inr (1 - sum_list (map2 (\<lambda>a b. (a - b)\<^sup>2) y p))),
      read_csv = (\<lambda>instrument.
        if instrument = ''NVDA'' then Inr (replicate 32 5)
        else if instrument = ''COIN'' then Inr [1, 2, 3]
        else Inl FileNotFoundError),
      to_csv = (\<lambda>instrument method norm_data.
        if method = ''Log'' then Inl OSError else Inr ())\<rparr>"

section \<open>Properties of the rounding\<close>

subsection \<open>Powers of two and binades\<close>

lemma pow2_pos [simp]: "0 < pow2 e"
  by (simp add: pow2_def)

lemma pow2_powi: "pow2 e = 2 powi e"
  by (simp add: pow2_def power_int_def field_simps)

lemma pow2_add: "pow2 (a + b) = pow2 a * pow2 b"
  by (simp add: pow2_powi power_int_add)

lemma pow2_Suc: "pow2 (e + 1) = 2 * pow2 e"
  by (simp add: pow2_powi power_int_add)

lemma pow2_pred: "pow2 (e - 1) = pow2 e / 2"
  using pow2_Suc [of "e - 1"] by simp

lemma pow2_mono: "a \<le> b \<Longrightarrow> pow2 a \<le> pow2 b"
  by (simp add: pow2_powi power_int_increasing)

lemma pow2_strict_mono: "a < b \<Longrightarrow> pow2 a < pow2 b"
  by (simp add: pow2_powi power_int_strict_increasing)

lemma pow2_less_iff: "pow2 a < pow2 b \<longleftrightarrow> a < b"
  using pow2_strict_mono [of a b] pow2_mono [of b a] by (cases "a < b") auto

lemma pow2_le_iff: "pow2 a \<le> pow2 b \<longleftrightarrow> a \<le> b"
  using pow2_strict_mono [of b a] pow2_mono [of a b] by (cases "a \<le> b") auto

lemma binade_bounds:
  "0 < x \<Longrightarrow> pow2 (binade x) \<le> x \<and> x < pow2 (binade x + 1)"
proof (induction x rule: binade.induct)
  case (1 x)
  show ?case
  proof (cases "2 \<le> x")
    case True
    with 1 have "pow2 (binade (x / 2)) \<le> x / 2 \<and> x / 2 < pow2 (binade (x / 2) + 1)"
      by simp
    moreover from True 1 have "binade x = binade (x / 2) + 1"
      by (subst binade.simps) simp
    moreover have "pow2 (binade (x / 2) + 1 + 1) = 2 * pow2 (binade (x / 2) + 1)"
      by (rule pow2_Suc)
    moreover have "pow2 (binade (x / 2) + 1) = 2 * pow2 (binade (x / 2))"
      by (rule pow2_Suc)
    ultimately show ?thesis
      by simp
  next
    case False
    show ?thesis
    proof (cases "x < 1")
      case True
      with 1 False have "pow2 (binade (2 * x)) \<le> 2 * x \<and> 2 * x < pow2 (binade (2 * x) + 1)"
        by simp
      moreover from True False 1 have "binade x = binade (2 * x) - 1"
        by (subst binade.simps) simp
      moreover have "pow2 (binade (2 * x) - 1 + 1) = pow2 (binade (2 * x))"
        by simp
      moreover have "pow2 (binade (2 * x) - 1) = pow2 (binade (2 * x)) / 2"
        by (rule pow2_pred)
      moreover have "pow2 (binade (2 * x) + 1) = 2 * pow2 (binade (2 * x))"
        by (rule pow2_Suc)
      ultimately show ?thesis
        by simp
    next
      case ge: False
      with False 1 have "binade x = 0"
        by (subst binade.simps) simp
      with ge False show ?thesis
        by (simp add: pow2_def)
    qed
  qed
qed

lemma binade_eqI:
  assumes "pow2 k \<le> x" and "x < pow2 (k + 1)"
  shows "binade x = k"
proof -
  have x: "0 < x" using assms(1) pow2_pos [of k] by linarith
  from binade_bounds [OF x] assms have "pow2 k < pow2 (binade x + 1)" "pow2 (binade x) < pow2 (k + 1)"
    by linarith+
  then show ?thesis
    by (simp add: pow2_less_iff)
qed

lemma binade_mono: "0 < x \<Longrightarrow> x \<le> y \<Longrightarrow> binade x \<le> binade y"
proof -
  assume x: "0 < x" and le: "x \<le> y"
  then have y: "0 < y" by simp
  from binade_bounds [OF x] binade_bounds [OF y] le have "pow2 (binade x) < pow2 (binade y + 1)"
    by linarith
  then show ?thesis by (simp add: pow2_less_iff)
qed

lemma rhe_bounds: "of_int (round_half_even y) \<le> y + 1 / 2" "y - 1 / 2 \<le> of_int (round_half_even y)"
  by (auto simp: round_half_even_def Let_def) linarith+

lemma rhe_of_int [simp]: "round_half_even (of_int n) = n"
  by (simp add: round_half_even_def)

lemma rhe_mono: "y \<le> z \<Longrightarrow> round_half_even y \<le> round_half_even z"
proof -
  assume le: "y \<le> z"
  then have f: "\<lfloor>y\<rfloor> \<le> \<lfloor>z\<rfloor>" by (rule floor_mono)
  show ?thesis
  proof (cases "\<lfloor>y\<rfloor> = \<lfloor>z\<rfloor>")
    case True
    with le show ?thesis
      by (auto simp: round_half_even_def Let_def)
  next
    case False
    with f have "\<lfloor>y\<rfloor> + 1 \<le> \<lfloor>z\<rfloor>" by simp
    moreover have "round_half_even y \<le> \<lfloor>y\<rfloor> + 1"
      by (simp add: round_half_even_def Let_def)
    moreover have "\<lfloor>z\<rfloor> \<le> round_half_even z"
      by (simp add: round_half_even_def Let_def)
    ultimately show ?thesis by linarith
  qed
qed

lemma rhe_le: "y \<le> of_int n \<Longrightarrow> round_half_even y \<le> n"
  using rhe_mono [of y "of_int n"] by simp

lemma rhe_ge: "of_int n \<le> y \<Longrightarrow> n \<le> round_half_even y"
  using rhe_mono [of "of_int n" y] by simp

subsection \<open>Rounding is monotone and leaves binary64 numbers as they are\<close>

lemma ulp_exponent_ge: "- 1074 \<le> ulp_exponent x"
  by (simp add: ulp_exponent_def)

lemma ulp_exponent_mono: "0 < x \<Longrightarrow> x \<le> y \<Longrightarrow> ulp_exponent x \<le> ulp_exponent y"
  using binade_mono [of x y] by (simp add: ulp_exponent_def)

text \<open>A positive number is below \<open>2 ^ 53\<close> units of its last place, and a normal one is at least \<open>2 ^ 52\<close>.\<close>

lemma below_53: "0 < x \<Longrightarrow> x < pow2 (ulp_exponent x + 53)"
proof -
  assume x: "0 < x"
  have "binade x + 1 \<le> ulp_exponent x + 53"
    using x by (simp add: ulp_exponent_def)
  then have "pow2 (binade x + 1) \<le> pow2 (ulp_exponent x + 53)"
    by (rule pow2_mono)
  with binade_bounds [OF x] show ?thesis by linarith
qed

lemma normal_52: "0 < x \<Longrightarrow> - 1074 < ulp_exponent x \<Longrightarrow> pow2 (ulp_exponent x + 52) \<le> x"
proof -
  assume x: "0 < x" and n: "- 1074 < ulp_exponent x"
  then have "ulp_exponent x + 52 = binade x"
    by (simp add: ulp_exponent_def max_def split: if_splits)
  with binade_bounds [OF x] show ?thesis by simp
qed

lemma pow2_nonneg [simp]: "0 \<le> pow2 e"
  using pow2_pos [of e] by linarith

lemma pow2_neq0 [simp]: "pow2 e \<noteq> 0"
  using pow2_pos [of e] by linarith

lemma pow2_nat: "pow2 (int n) = 2 ^ n"
  by (simp add: pow2_def)

lemma pow2_53: "pow2 (e + 53) = 2 ^ 53 * pow2 e"
  using pow2_add [of 53 e] pow2_nat [of 53] by (simp add: add.commute)

lemma pow2_52: "pow2 (e + 52) = 2 ^ 52 * pow2 e"
  using pow2_add [of 52 e] pow2_nat [of 52] by (simp add: add.commute)

lemma scaled: "x / pow2 e < 2 ^ 53 \<longleftrightarrow> x < pow2 (e + 53)"
  by (simp add: pow2_53 pos_divide_less_eq)

lemma scaled_ge: "2 ^ 52 \<le> x / pow2 e \<longleftrightarrow> pow2 (e + 52) \<le> x"
  by (simp add: pow2_52 pos_le_divide_eq)

lemma round64_zero [simp]: "round64 0 = 0"
  by (simp add: round64_def round_half_even_def)

lemma round64_nonneg: "0 \<le> x \<Longrightarrow> 0 \<le> round64 x"
proof -
  assume "0 \<le> x"
  then have "of_int 0 \<le> x / pow2 (ulp_exponent x)" by simp
  then have "0 \<le> round_half_even (x / pow2 (ulp_exponent x))" by (rule rhe_ge)
  then show ?thesis by (simp add: round64_def)
qed

lemma round64_upper: "0 < x \<Longrightarrow> round64 x \<le> pow2 (ulp_exponent x + 53)"
proof -
  assume x: "0 < x"
  from below_53 [OF x] have "x / pow2 (ulp_exponent x) \<le> of_int (2 ^ 53)"
    using scaled [of x "ulp_exponent x"] by simp
  then have "round_half_even (x / pow2 (ulp_exponent x)) \<le> 2 ^ 53" by (rule rhe_le)
  then have "of_int (round_half_even (x / pow2 (ulp_exponent x))) \<le> (2 ^ 53 :: real)"
    by (metis of_int_le_iff of_int_numeral of_int_power)
  then have "round64 x \<le> 2 ^ 53 * pow2 (ulp_exponent x)"
    by (simp add: round64_def)
  then show ?thesis by (simp add: pow2_53)
qed

lemma round64_lower:
  "0 < x \<Longrightarrow> - 1074 < ulp_exponent x \<Longrightarrow> pow2 (ulp_exponent x + 52) \<le> round64 x"
proof -
  assume x: "0 < x" and n: "- 1074 < ulp_exponent x"
  from normal_52 [OF x n] have "of_int (2 ^ 52) \<le> x / pow2 (ulp_exponent x)"
    using scaled_ge [of x "ulp_exponent x"] by simp
  then have "2 ^ 52 \<le> round_half_even (x / pow2 (ulp_exponent x))" by (rule rhe_ge)
  then have "(2 ^ 52 :: real) \<le> of_int (round_half_even (x / pow2 (ulp_exponent x)))"
    by (metis of_int_le_iff of_int_numeral of_int_power)
  then have "2 ^ 52 * pow2 (ulp_exponent x) \<le> round64 x"
    by (simp add: round64_def)
  then show ?thesis by (simp add: pow2_52)
qed

lemma round64_mono:
  assumes "0 \<le> x" and "x \<le> y"
  shows "round64 x \<le> round64 y"
proof (cases "x = 0")
  case True
  with assms round64_nonneg [of y] show ?thesis by simp
next
  case False
  with assms have x: "0 < x" and y: "0 < y" by simp_all
  from ulp_exponent_mono [OF x assms(2)] consider
    "ulp_exponent x = ulp_exponent y" | "ulp_exponent x < ulp_exponent y"
    by linarith
  then show ?thesis
  proof cases
    case 1
    from assms(2) have "x / pow2 (ulp_exponent y) \<le> y / pow2 (ulp_exponent y)"
      by (simp add: divide_right_mono)
    then have "round_half_even (x / pow2 (ulp_exponent y)) \<le> round_half_even (y / pow2 (ulp_exponent y))"
      by (rule rhe_mono)
    then show ?thesis
      by (simp add: round64_def 1)
  next
    case 2
    then have n: "- 1074 < ulp_exponent y"
      using ulp_exponent_ge [of x] by linarith
    from 2 have "pow2 (ulp_exponent x + 53) \<le> pow2 (ulp_exponent y + 52)"
      by (intro pow2_mono) simp
    with round64_upper [OF x] round64_lower [OF y n] show ?thesis by linarith
  qed
qed

text \<open>
  A number of at most 53 significant bits over an exponent in range is a binary64 number:
  rounding leaves it as it is.
\<close>

lemma round64_exact:
  assumes n: "0 \<le> n" "n < 2 ^ 53" and k: "- 1074 \<le> k"
  shows "round64 (of_int n * pow2 k) = of_int n * pow2 k"
proof (cases "n = 0")
  case True
  then show ?thesis by simp
next
  case False
  let ?x = "of_int n * pow2 k"
  from False n have x: "0 < ?x" by simp
  have "of_int n < (2 ^ 53 :: real)"
    using n(2) by (metis of_int_less_iff of_int_numeral of_int_power)
  then have "?x < 2 ^ 53 * pow2 k" by simp
  then have lt: "?x < pow2 (k + 53)" by (simp add: pow2_53)
  from binade_bounds [OF x] lt have "pow2 (binade ?x) < pow2 (k + 53)" by linarith
  then have "binade ?x - 52 \<le> k" by (simp add: pow2_less_iff)
  with k x have le: "ulp_exponent ?x \<le> k"
    by (simp add: ulp_exponent_def abs_of_pos del: of_int_mult mult_pos_pos zero_less_mult_iff)
  define e where "e = ulp_exponent ?x"
  define j where "j = nat (k - e)"
  from le have k': "k = e + int j" by (simp add: j_def e_def)
  have pk: "pow2 k = 2 ^ j * pow2 e"
    unfolding k' by (simp add: pow2_add pow2_nat)
  have "?x / pow2 e = of_int (n * 2 ^ j)"
    by (simp add: pk)
  then have "round_half_even (?x / pow2 e) = n * 2 ^ j"
    by (simp only: rhe_of_int)
  then have "round64 ?x = of_int (n * 2 ^ j) * pow2 e"
    by (simp only: round64_def e_def)
  also have "\<dots> = of_int n * (2 ^ j * pow2 e)"
    by simp
  also have "\<dots> = ?x"
    by (simp only: pk)
  finally show ?thesis .
qed

lemma round64_idem:
  assumes "0 \<le> x"
  shows "round64 (round64 x) = round64 x"
proof (cases "x = 0")
  case True
  then show ?thesis by simp
next
  case False
  with assms have x: "0 < x" by simp
  let ?e = "ulp_exponent x"
  let ?n = "round_half_even (x / pow2 ?e)"
  have r: "round64 x = of_int ?n * pow2 ?e" by (simp add: round64_def)
  have n0: "0 \<le> ?n" using x by (intro rhe_ge) simp
  from below_53 [OF x] have "x / pow2 ?e \<le> of_int (2 ^ 53)"
    using scaled [of x ?e] by simp
  then have n53: "?n \<le> 2 ^ 53" by (rule rhe_le)
  show ?thesis
  proof (cases "?n = 2 ^ 53")
    case True
    have "round64 x = of_int (2 ^ 52) * pow2 (?e + 1)"
      unfolding r True by (simp add: pow2_Suc)
    moreover have "round64 (of_int (2 ^ 52) * pow2 (?e + 1)) = of_int (2 ^ 52) * pow2 (?e + 1)"
      using ulp_exponent_ge [of x] by (intro round64_exact) simp_all
    ultimately show ?thesis by simp
  next
    case False
    with n53 have "?n < 2 ^ 53" by simp
    then have "round64 (of_int ?n * pow2 ?e) = of_int ?n * pow2 ?e"
      using n0 ulp_exponent_ge [of x] by (intro round64_exact)
    then show ?thesis by (simp only: r)
  qed
qed

lemma round64_error:
  "\<bar>round64 x - x\<bar> \<le> pow2 (ulp_exponent x) / 2"
proof -
  let ?e = "pow2 (ulp_exponent x)"
  have "\<bar>of_int (round_half_even (x / ?e)) - x / ?e\<bar> \<le> 1 / 2"
    using rhe_bounds [of "x / ?e"] by linarith
  then have "\<bar>of_int (round_half_even (x / ?e)) - x / ?e\<bar> * ?e \<le> 1 / 2 * ?e"
    by (intro mult_right_mono) simp_all
  moreover have "\<bar>of_int (round_half_even (x / ?e)) - x / ?e\<bar> * ?e
      = \<bar>(of_int (round_half_even (x / ?e)) - x / ?e) * ?e\<bar>"
    by (simp add: abs_mult)
  moreover have "(of_int (round_half_even (x / ?e)) - x / ?e) * ?e = round64 x - x"
    by (simp add: round64_def left_diff_distrib)
  ultimately show ?thesis by simp
qed

lemma double_rep:
  assumes "0 < a" and "round64 a = a"
  obtains n where "a = of_int n * pow2 (ulp_exponent a)" and "0 < n" and "n < 2 ^ 53"
proof -
  let ?e = "ulp_exponent a"
  let ?n = "round_half_even (a / pow2 ?e)"
  have a: "a = of_int ?n * pow2 ?e"
    using assms(2) by (simp add: round64_def)
  then have q: "of_int ?n = a / pow2 ?e"
    by (simp add: field_simps)
  from below_53 [OF assms(1)] have "a / pow2 ?e < 2 ^ 53"
    using scaled [of a ?e] by blast
  with q have "real_of_int ?n < 2 ^ 53" by simp
  then have "real_of_int ?n < real_of_int (2 ^ 53)" by simp
  then have "?n < 2 ^ 53"
    by (simp only: of_int_less_iff)
  moreover from q assms(1) have "0 < real_of_int ?n" by simp
  then have "0 < ?n" by simp
  ultimately show ?thesis using a that by blast
qed

lemma below_one: "round64 (1 - 1 / 2 ^ 53) = 1 - 1 / 2 ^ 53"
proof -
  have eq: "(1 - 1 / 2 ^ 53 :: real) = of_int (2 ^ 53 - 1) * pow2 (- 53)"
    by (simp add: pow2_def)
  have "round64 (of_int (2 ^ 53 - 1) * pow2 (- 53)) = of_int (2 ^ 53 - 1) * pow2 (- 53)"
    by (intro round64_exact) simp_all
  then show ?thesis by (simp only: eq)
qed

text \<open>
  The quotient of two binary64 numbers \<open>0 \<le> a < p\<close> is rounded to a number below 1.
\<close>

lemma quotient_below_one:
  assumes a: "0 \<le> a" "round64 a = a" and p: "round64 p = p" and lt: "a < p"
  shows "round64 (a / p) < 1"
proof (cases "a = 0")
  case True
  then show ?thesis by simp
next
  case False
  with a have a0: "0 < a" by simp
  with lt have p0: "0 < p" by simp
  let ?ea = "ulp_exponent a" and ?ep = "ulp_exponent p"
  from double_rep [OF a0 a(2)] obtain na where
    na: "a = of_int na * pow2 ?ea" "0 < na" "na < 2 ^ 53" by blast
  from double_rep [OF p0 p] obtain np where
    np: "p = of_int np * pow2 ?ep" "0 < np" "np < 2 ^ 53" by blast
  have le: "?ea \<le> ?ep"
    using a0 lt by (intro ulp_exponent_mono) simp_all
  have bound: "a \<le> p * (1 - 1 / 2 ^ 53)"
  proof (cases "?ea = ?ep")
    case True
    from lt have "of_int na * pow2 ?ep < of_int np * pow2 ?ep"
      using na(1) np(1) True by simp
    then have "real_of_int na < real_of_int np"
      by (simp add: mult_less_cancel_right)
    then have "na + 1 \<le> np" by simp
    then have "real_of_int (na + 1) \<le> real_of_int np"
      by (simp only: of_int_le_iff)
    then have "real_of_int na + 1 \<le> real_of_int np"
      by simp
    then have "(real_of_int na + 1) * pow2 ?ep \<le> real_of_int np * pow2 ?ep"
      by (intro mult_right_mono) simp_all
    then have step: "a + pow2 ?ep \<le> p"
      using na(1) np(1) True by (simp add: algebra_simps)
    from below_53 [OF p0] have "p < 2 ^ 53 * pow2 ?ep"
      by (simp add: pow2_53)
    then have "p / 2 ^ 53 < pow2 ?ep"
      by (simp add: field_simps)
    with step show ?thesis
      by (simp add: algebra_simps)
  next
    case False
    with le have less: "?ea \<le> ?ep - 1" by simp
    then have n: "- 1074 < ?ep"
      using ulp_exponent_ge [of a] by linarith
    from na(3) have "na \<le> 2 ^ 53 - 1" by simp
    then have "real_of_int na \<le> real_of_int (2 ^ 53 - 1)"
      by (simp only: of_int_le_iff)
    then have "real_of_int na \<le> 2 ^ 53 - 1"
      by simp
    then have "a \<le> (2 ^ 53 - 1) * pow2 ?ea"
      unfolding na(1) [symmetric] by (subst na(1)) (intro mult_right_mono, simp_all)
    also have "\<dots> \<le> (2 ^ 53 - 1) * pow2 (?ep - 1)"
      using pow2_mono [OF less] by (intro mult_left_mono) simp_all
    also have "\<dots> = pow2 (?ep + 52) * (1 - 1 / 2 ^ 53)"
      by (simp add: pow2_52 pow2_pred algebra_simps)
    also have "\<dots> \<le> p * (1 - 1 / 2 ^ 53)"
      using normal_52 [OF p0 n] by (intro mult_right_mono) simp_all
    finally show ?thesis .
  qed
  then have "a / p \<le> 1 - 1 / 2 ^ 53"
    using p0 by (simp add: pos_divide_le_eq mult.commute)
  moreover have "0 \<le> a / p" using a0 p0 by simp
  ultimately have "round64 (a / p) \<le> round64 (1 - 1 / 2 ^ 53)"
    by (intro round64_mono)
  then have "round64 (a / p) \<le> 1 - 1 / 2 ^ 53"
    by (simp only: below_one)
  then show ?thesis
    by simp
qed

section \<open>Properties of the sizing\<close>

lemma threshold_pos [simp]: "0 < overflow_threshold"
  by (simp add: overflow_threshold_def)

lemma rounded_nonneg:
  "0 \<le> x \<Longrightarrow> rounded x = (if overflow_threshold \<le> round64 x then PosInf else Fin (round64 x))"
  using round64_nonneg [of x] threshold_pos by (simp add: rounded_def Let_def del: threshold_pos)

lemma fraction_finite:
  assumes "float64 risk" and "0 \<le> risk"
  shows "rounded (risk / 100) = Fin (round64 (risk / 100))"
proof -
  have "round64 (risk / 100) \<le> round64 risk"
    using assms(2) by (intro round64_mono) simp_all
  with assms have "round64 (risk / 100) < overflow_threshold"
    by (auto simp: float64_def)
  with assms(2) show ?thesis
    by (simp add: rounded_nonneg)
qed

text \<open>
  The size on finite non-negative inputs and a positive price: no division by zero and no
  NaN, the truncation is the floor, and the only exception is the \<open>OverflowError\<close> of
  an infinite quotient.
\<close>

lemma entry_size_formula:
  assumes "float64 risk" and "0 \<le> equity" and "0 \<le> risk" and "0 < price"
  shows "entry_size (Fin equity) (Fin risk) (Fin price) =
           (let risk_amount = round64 (equity * round64 (risk / 100));
                quotient = round64 (risk_amount / price)
            in if risk_amount < overflow_threshold \<and> quotient < overflow_threshold
               then Inr \<lfloor>quotient\<rfloor> else Inl OverflowError)"
proof -
  let ?f = "round64 (risk / 100)"
  let ?a = "round64 (equity * ?f)"
  let ?q = "round64 (?a / price)"
  have f0: "0 \<le> ?f" using assms(3) by (intro round64_nonneg) simp
  then have a0: "0 \<le> ?a" using assms(2) by (intro round64_nonneg) simp
  then have q0: "0 \<le> ?q" using assms(4) by (intro round64_nonneg) simp
  have prod: "0 \<le> equity * ?f" using f0 assms(2) by simp
  have quot: "0 \<le> ?a / price" using a0 assms(4) by simp
  show ?thesis
    using assms(4) q0
    by (simp add: entry_size_def fraction_finite [OF assms(1,3)] rounded_nonneg [OF prod]
        rounded_nonneg [OF quot] Let_def not_le)
qed

lemma entry_size_eval:
  assumes "round64 (risk / 100) = f" and "round64 (equity * f) = a"
    and "round64 (a / price) = q" and "\<lfloor>q\<rfloor> = n"
    and "float64 risk" and "0 \<le> equity" and "0 \<le> risk" and "0 < price"
    and "a < overflow_threshold" and "q < overflow_threshold"
  shows "entry_size (Fin equity) (Fin risk) (Fin price) = Inr n"
  using entry_size_formula [OF assms(5-8)] assms(1-4,9,10) by (simp add: Let_def)

lemma float64_nat: "n < 2 ^ 53 \<Longrightarrow> float64 (real n)"
proof -
  assume n: "n < 2 ^ 53"
  then have "int n < 2 ^ 53"
    by (metis of_nat_less_iff of_nat_numeral of_nat_power)
  then have "round64 (of_int (int n) * pow2 0) = of_int (int n) * pow2 0"
    by (intro round64_exact) simp_all
  then have "round64 (real n) = real n"
    by (simp add: pow2_def)
  moreover have "real n < 2 ^ 53"
    using n by (metis of_nat_less_iff of_nat_numeral of_nat_power)
  then have "\<bar>real n\<bar> < overflow_threshold"
    by (simp add: overflow_threshold_def)
  ultimately show ?thesis
    by (simp add: float64_def)
qed

lemma float64_values:
  "float64 1" "float64 2" "float64 3" "float64 7" "float64 29" "float64 35" "float64 100"
  "float64 500" "float64 10000" "float64 60000"
  using float64_nat [of 1] float64_nat [of 2] float64_nat [of 3] float64_nat [of 7]
    float64_nat [of 29] float64_nat [of 35] float64_nat [of 100] float64_nat [of 500]
    float64_nat [of 10000] float64_nat [of 60000]
  by simp_all

lemma float64_above_7_10: "float64 (6305039478318695 / 2 ^ 53)"
proof -
  have "round64 (of_int 6305039478318695 * pow2 (- 53)) = of_int 6305039478318695 * pow2 (- 53)"
    by (intro round64_exact) simp_all
  then show ?thesis
    by (simp add: float64_def pow2_def overflow_threshold_def)
qed

text \<open>The roundings of the sizes that are evaluated below.\<close>

lemma fraction_2: "round64 (2 / 100) = 5764607523034235 / 2 ^ 58"
  by code_simp

lemma fraction_3: "round64 (3 / 100) = 1080863910568919 / 2 ^ 55"
  by code_simp

lemma fraction_29: "round64 (29 / 100) = 5224175567749775 / 2 ^ 54"
  by code_simp

lemma amount_10000_2: "round64 (10000 * (5764607523034235 / 2 ^ 58)) = 200"
  by code_simp

lemma amount_500_3: "round64 (500 * (1080863910568919 / 2 ^ 55)) = 15"
  by code_simp

lemma amount_100_29: "round64 (100 * (5224175567749775 / 2 ^ 54)) = 8162774324609023 / 2 ^ 48"
  by code_simp

lemma amount_35_2: "round64 (35 * (5764607523034235 / 2 ^ 58)) = 6305039478318695 / 2 ^ 53"
  by code_simp

lemma quotient_values:
  "round64 (200 / 100) = 2"
  "round64 (200 / 10) = 20"
  "round64 (200 / 60000) = 7686143364045647 / 2 ^ 61"
  "round64 (15 / 7) = 4825285315039817 / 2 ^ 51"
  "round64 (8162774324609023 / 2 ^ 48 / 1) = 8162774324609023 / 2 ^ 48"
  "round64 (6305039478318695 / 2 ^ 53 / (6305039478318695 / 2 ^ 53)) = 1"
  by code_simp+

lemma size_10000_2_100: "entry_size (Fin 10000) (Fin 2) (Fin 100) = Inr 2"
  by (rule entry_size_eval [OF fraction_2 amount_10000_2 quotient_values(1)])
    (simp_all add: float64_values overflow_threshold_def)

lemma size_10000_2_10: "entry_size (Fin 10000) (Fin 2) (Fin 10) = Inr 20"
  by (rule entry_size_eval [OF fraction_2 amount_10000_2 quotient_values(2)])
    (simp_all add: float64_values overflow_threshold_def)

lemma size_10000_2_60000: "entry_size (Fin 10000) (Fin 2) (Fin 60000) = Inr 0"
  by (rule entry_size_eval [OF fraction_2 amount_10000_2 quotient_values(3)])
    (simp_all add: float64_values overflow_threshold_def floor_eq_iff)

lemma size_100_29_1: "entry_size (Fin 100) (Fin 29) (Fin 1) = Inr 28"
  by (rule entry_size_eval [OF fraction_29 amount_100_29 quotient_values(5)])
    (simp_all add: float64_values overflow_threshold_def floor_eq_iff)

lemma size_35_2: "entry_size (Fin 35) (Fin 2) (Fin (6305039478318695 / 2 ^ 53)) = Inr 1"
  by (rule entry_size_eval [OF fraction_2 amount_35_2 quotient_values(6)])
    (simp_all add: float64_values overflow_threshold_def)

text \<open>The exceptions of the sizing.\<close>

lemma fraction_returns: "\<exists>x. float_truediv r (Fin 100) = Inr x"
  by (cases r) simp_all

lemma py_int_error: "py_int q = Inl e \<Longrightarrow> e = OverflowError \<or> e = ValueError"
  by (cases q) auto

lemma truediv_error: "float_truediv a p = Inl e \<Longrightarrow> e = ZeroDivisionError \<and> p = Fin 0"
  by (cases p; cases a) (auto split: if_splits)

lemma entry_size_zero_price: "entry_size v r (Fin 0) = Inl ZeroDivisionError"
proof -
  from fraction_returns [of r] obtain x where "float_truediv r (Fin 100) = Inr x"
    by blast
  then show ?thesis
    by (simp add: entry_size_def Let_def)
qed

lemma entry_size_error:
  assumes "entry_size v r p = Inl e"
  shows "(e = ZeroDivisionError \<longleftrightarrow> p = Fin 0)
    \<and> (e = ZeroDivisionError \<or> e = OverflowError \<or> e = ValueError)"
proof -
  from fraction_returns [of r] obtain x where x: "float_truediv r (Fin 100) = Inr x"
    by blast
  show ?thesis
  proof (cases "float_truediv (float_mul v x) p")
    case (Inl e')
    with assms x have "e = e'" by (simp add: entry_size_def Let_def)
    with truediv_error [OF Inl] show ?thesis by simp
  next
    case (Inr q)
    with assms x have q: "py_int q = Inl e" by (simp add: entry_size_def Let_def)
    have "p \<noteq> Fin 0"
      using Inr by (cases p) (auto split: if_splits)
    with py_int_error [OF q] show ?thesis by auto
  qed
qed

text \<open>
  C4, as amended. For binary64 numbers, a positive price, a non-negative equity value and
  a non-negative risk percent, the size computed on entry is the floor of the quotient as
  the code computes it, each of \<open>risk_percent / 100\<close>, the product with the equity and
  the quotient by the price rounded to binary64; when the product or the quotient
  overflows, the sizing raises \<open>OverflowError\<close>. The size for equity 10000, risk percent
  2 and price 100 is 2.
\<close>

theorem entry_size_floor:
  "(float64 equity \<and> float64 risk \<and> float64 price \<and> 0 \<le> equity \<and> 0 \<le> risk \<and> 0 < price \<longrightarrow>
      entry_size (Fin equity) (Fin risk) (Fin price) =
        (let risk_amount = round64 (equity * round64 (risk / 100));
             quotient = round64 (risk_amount / price)
         in if risk_amount < overflow_threshold \<and> quotient < overflow_threshold
            then Inr \<lfloor>quotient\<rfloor> else Inl OverflowError))
   \<and> entry_size (Fin 10000) (Fin 2) (Fin 100) = Inr 2"
  using entry_size_formula [of risk equity price] size_10000_2_100 by blast

theorem entry_size_floor_witness:
  "float64 500 \<and> float64 3 \<and> float64 7 \<and> entry_size (Fin 500) (Fin 3) (Fin 7) = Inr 2"
proof -
  have "entry_size (Fin 500) (Fin 3) (Fin 7) =
      (let risk_amount = round64 (500 * round64 (3 / 100));
           quotient = round64 (risk_amount / 7)
       in if risk_amount < overflow_threshold \<and> quotient < overflow_threshold
          then Inr \<lfloor>quotient\<rfloor> else Inl OverflowError)"
    using entry_size_floor [of 500 3 7] float64_values by simp
  then have "entry_size (Fin 500) (Fin 3) (Fin 7) = Inr \<lfloor>4825285315039817 / 2 ^ 51 :: real\<rfloor>"
    unfolding Let_def fraction_3 amount_500_3 quotient_values
    by (simp add: overflow_threshold_def)
  moreover have "\<lfloor>4825285315039817 / 2 ^ 51 :: real\<rfloor> = 2"
    by (simp add: floor_eq_iff)
  ultimately show ?thesis
    using float64_values by simp
qed

text \<open>
  C4 as it is stated fails: for equity 100, risk percent 29 and price 1 the exact quotient
  is 29, and the code sizes 28, since \<open>29 / 100\<close> is rounded down and the product with
  100 is below 29.
\<close>

theorem entry_size_rounded_down:
  "float64 100 \<and> float64 29 \<and> float64 1
   \<and> \<lfloor>100 * 29 / 100 / 1 :: real\<rfloor> = 29
   \<and> entry_size (Fin 100) (Fin 29) (Fin 1) = Inr 28"
  using float64_values size_100_29_1 by simp

text \<open>
  C5, as amended. For binary64 numbers, a positive price, a non-negative equity value and
  a non-negative risk percent, the size computed on entry is 0 whenever the risk percent
  is 0 or the price exceeds the risk amount as the code computes it, the rounded product
  of the equity and the rounded \<open>risk_percent / 100\<close>.
\<close>

theorem entry_size_zero:
  assumes "float64 equity" and "float64 risk" and "float64 price"
    and "0 \<le> equity" and "0 \<le> risk" and "0 < price"
    and "risk = 0 \<or> round64 (equity * round64 (risk / 100)) < price"
  shows "entry_size (Fin equity) (Fin risk) (Fin price) = Inr 0"
proof -
  let ?a = "round64 (equity * round64 (risk / 100))"
  let ?q = "round64 (?a / price)"
  have f0: "0 \<le> round64 (risk / 100)" using assms(5) by (intro round64_nonneg) simp
  then have prod: "0 \<le> equity * round64 (risk / 100)" using assms(4) by simp
  then have a0: "0 \<le> ?a" by (rule round64_nonneg)
  have lt: "?a < price"
    using assms(6,7) by auto
  have p: "round64 price = price" "price < overflow_threshold"
    using assms(3,6) by (auto simp: float64_def)
  have "?q < 1"
    using a0 round64_idem [OF prod] p(1) lt by (rule quotient_below_one)
  moreover have "0 \<le> ?q"
    using a0 assms(6) by (intro round64_nonneg) simp
  ultimately have fl: "\<lfloor>?q\<rfloor> = 0" and small: "?q < overflow_threshold"
    using threshold_pos by (simp_all add: floor_eq_iff overflow_threshold_def)
  from lt p(2) have "?a < overflow_threshold" by simp
  with fl small entry_size_formula [OF assms(2,4,5,6)] show ?thesis
    by (simp add: Let_def)
qed

theorem entry_size_zero_witness:
  "float64 10000 \<and> float64 2 \<and> float64 60000
   \<and> round64 (10000 * round64 (2 / 100)) < 60000
   \<and> entry_size (Fin 10000) (Fin 2) (Fin 60000) = Inr 0"
proof -
  have lt: "round64 (10000 * round64 (2 / 100)) < 60000"
    unfolding fraction_2 amount_10000_2 by simp
  with entry_size_zero [of 10000 2 60000] float64_values
  have "entry_size (Fin 10000) (Fin 2) (Fin 60000) = Inr 0"
    by simp
  with lt float64_values show ?thesis
    by simp
qed

text \<open>
  C5 as it is stated fails: for equity 35, risk percent 2 and the price
  \<open>0.7000000000000001\<close>, the binary64 number next above \<open>7 / 10\<close>, the price exceeds
  \<open>35 * 2 / 100\<close>, and the code sizes 1: the product of 35 and the rounded \<open>2 / 100\<close>
  is rounded up to the price.
\<close>

theorem entry_size_rounded_up:
  "float64 35 \<and> float64 2 \<and> float64 (6305039478318695 / 2 ^ 53)
   \<and> (0 :: real) < 6305039478318695 / 2 ^ 53
   \<and> (35 :: real) * 2 / 100 < 6305039478318695 / 2 ^ 53
   \<and> entry_size (Fin 35) (Fin 2) (Fin (6305039478318695 / 2 ^ 53)) = Inr 1"
  using float64_values float64_above_7_10 size_35_2 by simp

section \<open>The signal and the forecast history\<close>

lemma next_ok:
  assumes "MLStrategy_next p predict b s = (s', Inr c)"
  shows "data_close s' = data_close s"
    and "length (data_close s) < lookback p \<Longrightarrow> predicted_prices s' = predicted_prices s"
    and "lookback p \<le> length (data_close s) \<Longrightarrow>
           map Inr (predicted_prices s') =
             map Inr (predicted_prices s) @ [predict (slice_from_neg (lookback p) (data_close s))]"
  using assms
  by (auto simp: MLStrategy_next_def Let_def split: sum.splits if_splits)

lemma float_less_irrefl [simp]: "\<not> float_less x x"
  by (cases x) simp_all

text \<open>
  The outcome of \<open>next\<close> on a bar with a full window and a previous prediction.
\<close>

lemma next_result:
  assumes full: "lookback p \<le> length (data_close s)"
    and pred: "predict (slice_from_neg (lookback p) (data_close s)) = Inr prediction"
    and two: "predicted_prices s \<noteq> []"
  shows "snd (MLStrategy_next p predict b s) =
       (if float_less (last (predicted_prices s)) prediction \<and> position b = 0 then
          (case entry_size (getvalue b) (risk_percent p) (last (data_close s)) of
             Inl e \<Rightarrow> Inl e
           | Inr sz \<Rightarrow> Inr (Some (Buy sz)))
        else if float_less prediction (last (predicted_prices s)) \<and> position b \<noteq> 0 then
          Inr (Some ClosePosition)
        else Inr None)"
proof -
  have "(predicted_prices s @ [prediction]) ! (length (predicted_prices s @ [prediction]) - 2)
          = last (predicted_prices s)"
    using two by (simp add: nth_append last_conv_nth)
  with full pred two show ?thesis
    by (auto simp: MLStrategy_next_def Let_def split: sum.splits)
qed

text \<open>
  C1, as amended. On a bar with a full window and a previous prediction (so that at least
  two predictions are recorded once this bar's is appended):
  when the prediction is greater than the previous one and no position is open, \<open>next\<close>
  sizes an entry and either raises the exception of the sizing or calls \<open>buy\<close> with the
  computed size; when the prediction is less than the previous one and a position is
  open, it calls \<open>close\<close>; otherwise, and so for equal predictions, it makes no call.
  \<open>next\<close> raises only in the sizing: \<open>ZeroDivisionError\<close>, which it raises exactly
  at a price of 0, \<open>OverflowError\<close> or \<open>ValueError\<close>.
  When \<open>next\<close> does not raise: \<open>buy\<close> is called if and only if the prediction is
  greater and no position is open, and a buy order is placed from no position (a long
  position is entered) if and only if moreover the computed size is not 0, the order
  being for the absolute value of the size; \<open>close\<close> is called if and only if the
  prediction is less and a position is open, and it places the order for the whole
  position, a sale when the position is long; there is no \<open>buy\<close> and no order to buy
  more while a long position is open, and no \<open>close\<close> and no sale while none is.
\<close>

theorem next_signal:
  assumes full: "lookback p \<le> length (data_close s)"
    and pred: "predict (slice_from_neg (lookback p) (data_close s)) = Inr prediction"
    and two: "predicted_prices s \<noteq> []"
  shows "snd (MLStrategy_next p predict b s) =
       (if float_less (last (predicted_prices s)) prediction \<and> position b = 0 then
          (case entry_size (getvalue b) (risk_percent p) (last (data_close s)) of
             Inl e \<Rightarrow> Inl e
           | Inr sz \<Rightarrow> Inr (Some (Buy sz)))
        else if float_less prediction (last (predicted_prices s)) \<and> position b \<noteq> 0 then
          Inr (Some ClosePosition)
        else Inr None)
    \<and> (\<forall>e. snd (MLStrategy_next p predict b s) = Inl e \<longrightarrow>
         float_less (last (predicted_prices s)) prediction \<and> position b = 0
       \<and> entry_size (getvalue b) (risk_percent p) (last (data_close s)) = Inl e
       \<and> (e = ZeroDivisionError \<longleftrightarrow> last (data_close s) = Fin 0)
       \<and> (e = ZeroDivisionError \<or> e = OverflowError \<or> e = ValueError))
    \<and> (float_less (last (predicted_prices s)) prediction \<and> position b = 0
         \<and> last (data_close s) = Fin 0 \<longrightarrow>
         snd (MLStrategy_next p predict b s) = Inl ZeroDivisionError)
    \<and> (\<forall>c. snd (MLStrategy_next p predict b s) = Inr c \<longrightarrow>
         ((\<exists>sz. c = Some (Buy sz)) \<longleftrightarrow>
            (float_less (last (predicted_prices s)) prediction \<and> position b = 0))
       \<and> (\<forall>n. (position b = 0 \<and> submitted (position b) c = Some (BuyOrder n)) \<longleftrightarrow>
            (float_less (last (predicted_prices s)) prediction \<and> position b = 0
             \<and> (\<exists>sz. entry_size (getvalue b) (risk_percent p) (last (data_close s)) = Inr sz
                   \<and> sz \<noteq> 0 \<and> n = nat \<bar>sz\<bar>)))
       \<and> (c = Some ClosePosition \<longleftrightarrow>
            (float_less prediction (last (predicted_prices s)) \<and> position b \<noteq> 0))
       \<and> (0 < position b \<longrightarrow>
            (submitted (position b) c = Some (SellOrder (nat (position b))) \<longleftrightarrow>
               float_less prediction (last (predicted_prices s))))
       \<and> (position b < 0 \<longrightarrow>
            (submitted (position b) c = Some (BuyOrder (nat \<bar>position b\<bar>)) \<longleftrightarrow>
               float_less prediction (last (predicted_prices s))))
       \<and> (prediction = last (predicted_prices s) \<longrightarrow> c = None)
       \<and> (\<not> float_less (last (predicted_prices s)) prediction
            \<and> \<not> float_less prediction (last (predicted_prices s)) \<longrightarrow> c = None)
       \<and> (position b \<noteq> 0 \<longrightarrow> (\<forall>sz. c \<noteq> Some (Buy sz)))
       \<and> (0 < position b \<longrightarrow> (\<forall>n. submitted (position b) c \<noteq> Some (BuyOrder n)))
       \<and> (position b = 0 \<longrightarrow>
            c \<noteq> Some ClosePosition \<and> (\<forall>n. submitted (position b) c \<noteq> Some (SellOrder n))))"
proof -
  note r = next_result [where b = b and predict = predict, OF full pred two]
  have errors: "\<forall>e. snd (MLStrategy_next p predict b s) = Inl e \<longrightarrow>
         float_less (last (predicted_prices s)) prediction \<and> position b = 0
       \<and> entry_size (getvalue b) (risk_percent p) (last (data_close s)) = Inl e
       \<and> (e = ZeroDivisionError \<longleftrightarrow> last (data_close s) = Fin 0)
       \<and> (e = ZeroDivisionError \<or> e = OverflowError \<or> e = ValueError)"
  proof (intro allI impI)
    fix e
    assume "snd (MLStrategy_next p predict b s) = Inl e"
    then have sig: "float_less (last (predicted_prices s)) prediction \<and> position b = 0"
      and sz: "entry_size (getvalue b) (risk_percent p) (last (data_close s)) = Inl e"
      unfolding r by (auto split: if_splits sum.splits)
    from sig sz entry_size_error [OF sz]
    show "float_less (last (predicted_prices s)) prediction \<and> position b = 0
       \<and> entry_size (getvalue b) (risk_percent p) (last (data_close s)) = Inl e
       \<and> (e = ZeroDivisionError \<longleftrightarrow> last (data_close s) = Fin 0)
       \<and> (e = ZeroDivisionError \<or> e = OverflowError \<or> e = ValueError)"
      by blast
  qed
  have zero: "float_less (last (predicted_prices s)) prediction \<and> position b = 0
         \<and> last (data_close s) = Fin 0 \<longrightarrow>
         snd (MLStrategy_next p predict b s) = Inl ZeroDivisionError"
    unfolding r by (simp add: entry_size_zero_price)
  have calls: "\<forall>c. snd (MLStrategy_next p predict b s) = Inr c \<longrightarrow>
         ((\<exists>sz. c = Some (Buy sz)) \<longleftrightarrow>
            (float_less (last (predicted_prices s)) prediction \<and> position b = 0))
       \<and> (\<forall>n. (position b = 0 \<and> submitted (position b) c = Some (BuyOrder n)) \<longleftrightarrow>
            (float_less (last (predicted_prices s)) prediction \<and> position b = 0
             \<and> (\<exists>sz. entry_size (getvalue b) (risk_percent p) (last (data_close s)) = Inr sz
                   \<and> sz \<noteq> 0 \<and> n = nat \<bar>sz\<bar>)))
       \<and> (c = Some ClosePosition \<longleftrightarrow>
            (float_less prediction (last (predicted_prices s)) \<and> position b \<noteq> 0))
       \<and> (0 < position b \<longrightarrow>
            (submitted (position b) c = Some (SellOrder (nat (position b))) \<longleftrightarrow>
               float_less prediction (last (predicted_prices s))))
       \<and> (position b < 0 \<longrightarrow>
            (submitted (position b) c = Some (BuyOrder (nat \<bar>position b\<bar>)) \<longleftrightarrow>
               float_less prediction (last (predicted_prices s))))
       \<and> (prediction = last (predicted_prices s) \<longrightarrow> c = None)
       \<and> (\<not> float_less (last (predicted_prices s)) prediction
            \<and> \<not> float_less prediction (last (predicted_prices s)) \<longrightarrow> c = None)
       \<and> (position b \<noteq> 0 \<longrightarrow> (\<forall>sz. c \<noteq> Some (Buy sz)))
       \<and> (0 < position b \<longrightarrow> (\<forall>n. submitted (position b) c \<noteq> Some (BuyOrder n)))
       \<and> (position b = 0 \<longrightarrow>
            c \<noteq> Some ClosePosition \<and> (\<forall>n. submitted (position b) c \<noteq> Some (SellOrder n)))"
    unfolding r
    by (cases "entry_size (getvalue b) (risk_percent p) (last (data_close s))")
      (auto simp: Strategy_buy_def Strategy_close_def)
  from r errors zero calls show ?thesis
    by (intro conjI)
qed

theorem next_signal_witness:
  "snd (MLStrategy_next \<lparr>lookback = 2, risk_percent = Fin 2\<rparr> (\<lambda>w. Inr (Fin 21))
          \<lparr>position = 0, getvalue = Fin 10000\<rparr>
          \<lparr>data_close = [Fin 9, Fin 10], predicted_prices = [Fin 20]\<rparr>) = Inr (Some (Buy 20))
   \<and> submitted 0 (Some (Buy 20)) = Some (BuyOrder 20)"
  using next_signal [of "\<lparr>lookback = 2, risk_percent = Fin 2\<rparr>"
      "\<lparr>data_close = [Fin 9, Fin 10], predicted_prices = [Fin 20]\<rparr>" "\<lambda>w. Inr (Fin 21)" "Fin 21"
      "\<lparr>position = 0, getvalue = Fin 10000\<rparr>"]
  by (simp add: size_10000_2_10 Strategy_buy_def)

text \<open>
  C1 as it is stated fails: with an equity of 10000, a risk percent of 2 and a close of
  60000, a prediction above the previous one with no position open makes \<open>next\<close> call
  \<open>buy\<close> with a size of 0, which places no order: no position is entered.
\<close>

theorem signal_without_entry:
  "float_less (Fin 20) (Fin 21)
   \<and> snd (MLStrategy_next \<lparr>lookback = 2, risk_percent = Fin 2\<rparr> (\<lambda>w. Inr (Fin 21))
          \<lparr>position = 0, getvalue = Fin 10000\<rparr>
          \<lparr>data_close = [Fin 59000, Fin 60000], predicted_prices = [Fin 20]\<rparr>)
       = Inr (Some (Buy 0))
   \<and> submitted 0 (Some (Buy 0)) = None"
  by (simp add: MLStrategy_next_def slice_from_neg_def Let_def size_10000_2_60000
      Strategy_buy_def)

lemma upt_shift: "[Suc 0..<Suc (Suc n)] = Suc 0 # map Suc [Suc 0..<Suc n]"
  by (simp add: upt_conv_Cons map_Suc_upt del: upt_Suc)

lemma map_filter_shift:
  "map f (filter P [Suc 0..<Suc (Suc n)]) =
     (if P (Suc 0) then [f (Suc 0)] else [])
       @ map (\<lambda>k. f (Suc k)) (filter (\<lambda>k. P (Suc k)) [Suc 0..<Suc n])"
  unfolding upt_shift by (simp add: filter_map comp_def)

text \<open>
  A run that ends without an exception holds, besides the predictions it started with,
  the prediction for the window of each bar from which the window is full, in the order
  of the bars.
\<close>

lemma run_history:
  "run p predict bars s = (s', calls, None) \<Longrightarrow>
     data_close s' = data_close s @ map close bars \<and> length calls = length bars \<and>
     map Inr (predicted_prices s') =
       map Inr (predicted_prices s) @
       map (\<lambda>k. predict (slice_from_neg (lookback p) (data_close s @ take k (map close bars))))
         (filter (\<lambda>k. lookback p \<le> length (data_close s) + k) [1..<Suc (length bars)])"
proof (induction bars arbitrary: s s' calls)
  case Nil
  then show ?case by simp
next
  case (Cons b bs)
  let ?s1 = "s\<lparr>data_close := data_close s @ [close b]\<rparr>"
  let ?f = "\<lambda>k. predict (slice_from_neg (lookback p) (data_close s @ take k (map close (b # bs))))"
  let ?P = "\<lambda>k. lookback p \<le> length (data_close s) + k"
  let ?g = "\<lambda>k. predict (slice_from_neg (lookback p) (data_close ?s1 @ take k (map close bs)))"
  let ?Q = "\<lambda>k. lookback p \<le> length (data_close ?s1) + k"
  from Cons.prems obtain s2 c calls' where
    step: "MLStrategy_next p predict (view b) ?s1 = (s2, Inr c)" and
    rest: "run p predict bs s2 = (s', calls', None)" and calls: "calls = c # calls'"
    by (auto split: prod.splits sum.splits)
  have d2: "data_close s2 = data_close ?s1"
    using next_ok(1) [OF step] .
  from Cons.IH [OF rest] d2 have
    ih1: "data_close s' = data_close ?s1 @ map close bs" and
    ih2: "length calls' = length bs" and
    ih3: "map Inr (predicted_prices s') =
            map Inr (predicted_prices s2) @ map ?g (filter ?Q [1..<Suc (length bs)])"
    by simp_all
  have shift: "map ?f (filter ?P [1..<Suc (length (b # bs))]) =
      (if ?P 1 then [?f 1] else []) @ map ?g (filter ?Q [1..<Suc (length bs)])"
    using map_filter_shift [of ?f ?P "length bs"] by simp
  have first: "map Inr (predicted_prices s2) =
      map Inr (predicted_prices s) @ (if ?P 1 then [?f 1] else [])"
  proof (cases "length (data_close ?s1) < lookback p")
    case True
    then show ?thesis using next_ok(2) [OF step] by simp
  next
    case False
    then show ?thesis using next_ok(3) [OF step] by simp
  qed
  have "data_close s' = data_close s @ map close (b # bs)"
    using ih1 by simp
  moreover have "length calls = length (b # bs)"
    using ih2 calls by simp
  moreover have "map Inr (predicted_prices s') =
      map Inr (predicted_prices s) @ map ?f (filter ?P [1..<Suc (length (b # bs))])"
    unfolding shift ih3 first by simp
  ultimately show ?case by blast
qed

lemma count_full: "length (filter (\<lambda>k. L \<le> k) [1..<Suc N]) = N - (L - 1)"
  by (induction N) auto

text \<open>
  C10. While fewer than \<open>lookback\<close> bars have been seen, \<open>next\<close> returns at once and
  appends nothing. On a bar with a full window it appends the prediction, exactly one,
  whatever the signal check that follows gives. So a run over a feed, from the initial
  strategy, that ends without an exception holds one prediction for each bar at which the
  window was full, that bar's, in order: with \<open>N\<close> bars, \<open>N - (lookback - 1)\<close> of them.
\<close>

theorem forecast_history:
  "(length (data_close s) < lookback p \<longrightarrow> MLStrategy_next p predict b s = (s, Inr None))
   \<and> (lookback p \<le> length (data_close s)
        \<and> predict (slice_from_neg (lookback p) (data_close s)) = Inr v
      \<longrightarrow> predicted_prices (fst (MLStrategy_next p predict b s)) = predicted_prices s @ [v])
   \<and> (run p predict bars init_strategy = (s', calls, None)
      \<longrightarrow> map Inr (predicted_prices s') =
            map (\<lambda>k. predict (slice_from_neg (lookback p) (take k (map close bars))))
              (filter (\<lambda>k. lookback p \<le> k) [1..<Suc (length bars)])
        \<and> length (predicted_prices s') = length (filter (\<lambda>k. lookback p \<le> k) [1..<Suc (length bars)])
        \<and> length (predicted_prices s') = length bars - (lookback p - 1))"
proof -
  have warming: "MLStrategy_next p predict b s = (s, Inr None)"
    if "length (data_close s) < lookback p"
    using that by (simp add: MLStrategy_next_def)
  have appended: "predicted_prices (fst (MLStrategy_next p predict b s)) = predicted_prices s @ [v]"
    if "lookback p \<le> length (data_close s)"
      and "predict (slice_from_neg (lookback p) (data_close s)) = Inr v"
    using that by (simp add: MLStrategy_next_def Let_def split: sum.splits)
  have whole: "map Inr (predicted_prices s') =
          map (\<lambda>k. predict (slice_from_neg (lookback p) (take k (map close bars))))
            (filter (\<lambda>k. lookback p \<le> k) [1..<Suc (length bars)])
      \<and> length (predicted_prices s') = length (filter (\<lambda>k. lookback p \<le> k) [1..<Suc (length bars)])
      \<and> length (predicted_prices s') = length bars - (lookback p - 1)"
    if r: "run p predict bars init_strategy = (s', calls, None)"
  proof -
    from run_history [OF r] have eq: "map Inr (predicted_prices s') =
          map (\<lambda>k. predict (slice_from_neg (lookback p) (take k (map close bars))))
            (filter (\<lambda>k. lookback p \<le> k) [1..<Suc (length bars)])"
      by (simp add: init_strategy_def)
    from arg_cong [OF eq, of length]
    have len: "length (predicted_prices s') =
        length (filter (\<lambda>k. lookback p \<le> k) [1..<Suc (length bars)])"
      by simp
    from eq len count_full [of "lookback p" "length bars"] show ?thesis
      by simp
  qed
  from warming appended whole show ?thesis
    by blast
qed

theorem forecast_history_witness:
  "predicted_prices (fst (run \<lparr>lookback = 2, risk_percent = Fin 2\<rparr> (\<lambda>w. Inr (last w))
       [\<lparr>close = Fin 1, view = \<lparr>position = 1, getvalue = Fin 100\<rparr>\<rparr>,
        \<lparr>close = Fin 2, view = \<lparr>position = 1, getvalue = Fin 100\<rparr>\<rparr>,
        \<lparr>close = Fin 4, view = \<lparr>position = 1, getvalue = Fin 100\<rparr>\<rparr>] init_strategy))
     = [Fin 2, Fin 4]
   \<and> length [Fin 2, Fin 4] = 3 - (2 - 1)"
proof -
  let ?p = "\<lparr>lookback = 2, risk_percent = Fin 2\<rparr>"
  let ?f = "\<lambda>w :: pyfloat list. (Inr (last w) :: py_error + pyfloat)"
  let ?bars = "[\<lparr>close = Fin 1, view = \<lparr>position = 1, getvalue = Fin 100\<rparr>\<rparr>,
        \<lparr>close = Fin 2, view = \<lparr>position = 1, getvalue = Fin 100\<rparr>\<rparr>,
        \<lparr>close = Fin 4, view = \<lparr>position = 1, getvalue = Fin 100\<rparr>\<rparr>]"
  let ?s = "\<lparr>data_close = [Fin 1, Fin 2, Fin 4], predicted_prices = [Fin 2, Fin 4]\<rparr>"
  have r: "run ?p ?f ?bars init_strategy = (?s, [None, None, None], None)"
    by (simp add: init_strategy_def MLStrategy_next_def slice_from_neg_def Let_def)
  from forecast_history [of _ ?p ?f _ _ ?bars ?s "[None, None, None]"] r
  have "length (predicted_prices ?s) = length ?bars - (lookback ?p - 1)"
    by blast
  with r show ?thesis
    by simp
qed

section \<open>Properties of the normalization\<close>

lemma and_then_Inr: "and_then r f = Inr y \<longleftrightarrow> (\<exists>x. r = Inr x \<and> f x = Inr y)"
  by (cases r) auto

lemma sum_list_const: "\<forall>x\<in>set X. x = c \<Longrightarrow> sum_list X = real (length X) * (c::real)"
  by (induction X) (auto simp: algebra_simps)

lemma sum_list_zeros: "sum_list (replicate n (0::real)) = 0"
  by (induction n) auto

text \<open>
  C8, as amended. For a non-empty series with zero variance (all closes equal) the
  Z-Score normalization raises nothing: it returns the series of zeros of the same
  length.
\<close>

theorem zscore_constant:
  assumes "X \<noteq> []" and "\<forall>x\<in>set X. x = c"
  shows "evaluate_normalization lib X ''Z-Score'' = Inr (replicate (length X) (Finite 0))"
proof -
  have m: "mean X = c"
    using assms by (simp add: mean_def sum_list_const)
  have "map (\<lambda>x. (x - c)\<^sup>2) X = replicate (length X) 0"
    using assms(2) by (induction X) auto
  then have v: "mean (map (\<lambda>x. (x - c)\<^sup>2) X) = 0"
    by (simp add: mean_def sum_list_zeros)
  have "map (\<lambda>x. Finite (x - c)) X = replicate (length X) (Finite 0)"
    using assms(2) by (induction X) auto
  with assms(1) show ?thesis
    by (simp add: evaluate_normalization_def StandardScaler_fit_transform_def m v
        handle_zeros_in_scale_def comp_def)
qed

theorem zscore_constant_witness:
  "evaluate_normalization example_library [7, 7] ''Z-Score'' = Inr [Finite 0, Finite 0]"
  using zscore_constant [of "[7, 7]" 7 example_library] by (simp add: eval_nat_numeral)

text \<open>
  C8 as it is stated fails: on three closes of 5 the Z-Score normalization returns a
  series.
\<close>

theorem zscore_constant_returns:
  "\<forall>lib :: unit library.
     evaluate_normalization lib [5, 5, 5] ''Z-Score'' = Inr [Finite 0, Finite 0, Finite 0]"
  by (simp add: evaluate_normalization_def StandardScaler_fit_transform_def mean_def
      handle_zeros_in_scale_def)

lemma special_boxcox_mono:
  assumes "0 < x" and "x < y"
  shows "special_boxcox l x < special_boxcox l y"
proof -
  consider "l = 0" | "0 < l" | "l < 0"
    by linarith
  then show ?thesis
  proof cases
    case 1
    with assms show ?thesis
      by (simp add: special_boxcox_def)
  next
    case 2
    with assms have "x powr l < y powr l"
      by (simp add: powr_less_mono2)
    with 2 show ?thesis
      by (simp add: special_boxcox_def divide_strict_right_mono)
  next
    case 3
    with assms have "y powr l < x powr l"
      by (simp add: powr_less_mono2_neg)
    with 3 show ?thesis
      by (simp add: special_boxcox_def divide_strict_right_mono_neg)
  qed
qed

lemma variance_nonneg: "0 \<le> mean (map (\<lambda>x. (x - m)\<^sup>2) X)"
  by (auto simp: mean_def intro!: divide_nonneg_nonneg sum_list_nonneg)

lemma scale_pos: "0 \<le> v \<Longrightarrow> 0 < handle_zeros_in_scale v"
  by (simp add: handle_zeros_in_scale_def)

text \<open>The shift: the float of \<open>1e-6\<close> is positive, and the rounded sum is monotone.\<close>

lemma float_1e_6_value: "float_1e_6 = 4722366482869645 / 2 ^ 72"
  unfolding float_1e_6_def by code_simp

lemma float_1e_6_pos: "0 < float_1e_6"
  by (simp add: float_1e_6_value)

lemma add_1e_6_mono: "0 \<le> x \<Longrightarrow> x \<le> y \<Longrightarrow> add_1e_6 x \<le> add_1e_6 y"
  unfolding add_1e_6_def using float_1e_6_pos by (intro round64_mono) simp_all

lemma add_1e_6_pos: "0 \<le> x \<Longrightarrow> 0 < add_1e_6 x"
proof -
  assume x: "0 \<le> x"
  have "round64 float_1e_6 = float_1e_6"
    unfolding float_1e_6_def by (rule round64_idem) simp
  moreover have "round64 float_1e_6 \<le> round64 (x + float_1e_6)"
    using x float_1e_6_pos by (intro round64_mono) simp_all
  ultimately show ?thesis
    using float_1e_6_pos by (simp add: add_1e_6_def)
qed

lemma shifted_constant:
  "X \<noteq> [] \<Longrightarrow>
   list_all (\<lambda>v. v = hd (map add_1e_6 X)) (map add_1e_6 X)
     \<longleftrightarrow> list_all (\<lambda>x. add_1e_6 x = add_1e_6 (hd X)) X"
  by (simp add: list_all_iff hd_map)

lemma boxcox_constant:
  assumes "X \<noteq> []" and "list_all (\<lambda>x. add_1e_6 x = add_1e_6 (hd X)) X"
  shows "evaluate_normalization lib X ''Box-Cox'' = Inl ValueError"
  using assms by (simp add: evaluate_normalization_def stats_boxcox_def shifted_constant)

lemma normalization_pointwise:
  assumes ne: "X \<noteq> []" and pos: "\<forall>x\<in>set X. 0 < x"
    and nc: "\<not> (method = ''Box-Cox'' \<and> list_all (\<lambda>x. add_1e_6 x = add_1e_6 (hd X)) X)"
  shows "\<exists>f. mono_on {0<..} f \<and>
           evaluate_normalization lib X method = Inr (map (\<lambda>x. Finite (f x)) X)"
proof -
  consider (bc) "method = ''Box-Cox''" | (lg) "method = ''Log''" | (zs) "method = ''Z-Score''"
    | (mm) "method \<noteq> ''Box-Cox''" "method \<noteq> ''Log''" "method \<noteq> ''Z-Score''"
    by blast
  then show ?thesis
  proof cases
    case bc
    let ?shifted = "map add_1e_6 X"
    let ?f = "\<lambda>x. special_boxcox (boxcox_normmax lib ?shifted) (add_1e_6 x)"
    have "?f x \<le> ?f y" if "0 < x" "x \<le> y" for x y
    proof (cases "add_1e_6 x = add_1e_6 y")
      case True
      then show ?thesis by simp
    next
      case False
      with add_1e_6_mono [of x y] that have "add_1e_6 x < add_1e_6 y" by simp
      with add_1e_6_pos [of x] that show ?thesis
        by (intro less_imp_le special_boxcox_mono) simp_all
    qed
    then have "mono_on {0<..} ?f"
      by (auto simp: mono_on_def)
    moreover have "\<not> list_all (\<lambda>v. v = hd ?shifted) ?shifted"
      using nc bc ne by (simp add: shifted_constant)
    moreover have "\<not> list_ex (\<lambda>v. v \<le> 0) ?shifted"
      using pos add_1e_6_pos by (auto simp: list_ex_iff not_le intro: less_imp_le)
    ultimately show ?thesis
      using bc ne by (intro exI [of _ ?f])
        (simp add: evaluate_normalization_def stats_boxcox_def Let_def comp_def)
  next
    case lg
    let ?f = "\<lambda>x :: real. ln (add_1e_6 x)"
    have "?f x \<le> ?f y" if "0 < x" "x \<le> y" for x y
      using add_1e_6_mono [of x y] add_1e_6_pos [of x] add_1e_6_pos [of y] that by simp
    then have "mono_on {0<..} ?f"
      by (auto simp: mono_on_def)
    moreover have "map (\<lambda>x. np_log (add_1e_6 x)) X = map (\<lambda>x. Finite (?f x)) X"
      using pos add_1e_6_pos by (auto simp: np_log_def intro: less_imp_le)
    ultimately show ?thesis
      using lg by (intro exI [of _ ?f]) (simp add: evaluate_normalization_def)
  next
    case zs
    let ?s = "handle_zeros_in_scale (sqrt (mean (map (\<lambda>x. (x - mean X)\<^sup>2) X)))"
    let ?f = "\<lambda>x. (x - mean X) / ?s"
    have "0 < ?s"
      by (intro scale_pos) (simp add: variance_nonneg)
    then have "mono_on {0<..} ?f"
      by (auto simp: mono_on_def divide_right_mono)
    then show ?thesis
      using zs ne by (intro exI [of _ ?f])
        (simp add: evaluate_normalization_def StandardScaler_fit_transform_def Let_def comp_def)
  next
    case mm
    let ?s = "1 / handle_zeros_in_scale (Max (set X) - Min (set X))"
    let ?f = "\<lambda>x. x * ?s + (0 - Min (set X) * ?s)"
    have "Min (set X) \<le> Max (set X)"
      using ne by (simp add: Min_le_iff)
    then have "0 < ?s"
      by (simp add: scale_pos)
    then have "mono_on {0<..} ?f"
      by (auto simp: mono_on_def divide_right_mono)
    then show ?thesis
      using mm ne by (intro exI [of _ ?f])
        (simp add: evaluate_normalization_def MinMaxScaler_fit_transform_def Let_def comp_def)
  qed
qed

text \<open>
  C9, as amended. For a non-empty series of positive closes: when the method is Box-Cox
  and the closes shifted by \<open>1e-6\<close>, each sum rounded to binary64, are all equal - as
  they are for every constant series - the normalization raises \<open>ValueError\<close>; in every
  other case, so for the other three methods always, it returns a series of the length of
  the input whose element at each position is the image of the input's element at that
  position under one non-decreasing function.
\<close>

theorem normalization_shape:
  assumes "X \<noteq> []" and "\<forall>x\<in>set X. 0 < x"
  shows "(method = ''Box-Cox'' \<and> list_all (\<lambda>x. add_1e_6 x = add_1e_6 (hd X)) X \<longrightarrow>
            evaluate_normalization lib X method = Inl ValueError)
    \<and> (method = ''Box-Cox'' \<and> (\<forall>x\<in>set X. x = hd X) \<longrightarrow>
            evaluate_normalization lib X method = Inl ValueError)
    \<and> (\<not> (method = ''Box-Cox'' \<and> list_all (\<lambda>x. add_1e_6 x = add_1e_6 (hd X)) X) \<longrightarrow>
          (\<exists>ys f. evaluate_normalization lib X method = Inr ys
             \<and> length ys = length X
             \<and> mono_on {0<..} f
             \<and> (\<forall>i<length X. ys ! i = Finite (f (X ! i)))))"
proof -
  have raises: "evaluate_normalization lib X method = Inl ValueError"
    if "method = ''Box-Cox''" "list_all (\<lambda>x. add_1e_6 x = add_1e_6 (hd X)) X"
    using that boxcox_constant [OF assms(1)] by simp
  have const: "list_all (\<lambda>x. add_1e_6 x = add_1e_6 (hd X)) X" if "\<forall>x\<in>set X. x = hd X"
    using that by (simp add: list_all_iff)
  have returns: "\<exists>ys f. evaluate_normalization lib X method = Inr ys
             \<and> length ys = length X
             \<and> mono_on {0<..} f
             \<and> (\<forall>i<length X. ys ! i = Finite (f (X ! i)))"
    if nc: "\<not> (method = ''Box-Cox'' \<and> list_all (\<lambda>x. add_1e_6 x = add_1e_6 (hd X)) X)"
  proof -
    from normalization_pointwise [OF assms nc] obtain f where
      "mono_on {0<..} f"
      "evaluate_normalization lib X method = Inr (map (\<lambda>x. Finite (f x)) X)"
      by blast
    then show ?thesis
      by (intro exI [of _ "map (\<lambda>x. Finite (f x)) X"] exI [of _ f]) simp
  qed
  from raises const returns show ?thesis
    by blast
qed

lemma shifted_values:
  "add_1e_6 1 = 4503604130970123 / 2 ^ 52"
  "add_1e_6 2 = 2251800939585155 / 2 ^ 50"
  by code_simp+

theorem normalization_shape_witness:
  "(\<exists>ys. evaluate_normalization example_library [1, 2, 4] ''Box-Cox'' = Inr ys \<and> length ys = 3)
   \<and> evaluate_normalization example_library [7, 7] ''Box-Cox'' = Inl ValueError"
proof -
  have "\<not> list_all (\<lambda>x. add_1e_6 x = add_1e_6 (hd [1, 2, 4])) [1, 2, 4]"
    by (simp add: shifted_values)
  with normalization_shape [of "[1, 2, 4]" "''Box-Cox''" example_library]
  have "\<exists>ys. evaluate_normalization example_library [1, 2, 4] ''Box-Cox'' = Inr ys \<and> length ys = 3"
    by auto
  moreover from normalization_shape [of "[7, 7]" "''Box-Cox''" example_library]
  have "evaluate_normalization example_library [7, 7] ''Box-Cox'' = Inl ValueError"
    by simp
  ultimately show ?thesis
    by blast
qed

text \<open>
  C9 as it is stated fails: three closes of 5 are positive, and Box-Cox raises on them.
\<close>

theorem boxcox_constant_raises:
  "list_all (\<lambda>x. 0 < x) [5, 5, 5 :: real]
   \<and> (\<forall>lib :: unit library. evaluate_normalization lib [5, 5, 5] ''Box-Cox'' = Inl ValueError)"
  by (simp add: evaluate_normalization_def stats_boxcox_def)

lemma length_normalization:
  "evaluate_normalization lib X method = Inr ys \<Longrightarrow> length ys = length X"
  by (auto simp: evaluate_normalization_def and_then_Inr StandardScaler_fit_transform_def
      MinMaxScaler_fit_transform_def stats_boxcox_def Let_def split: if_splits)

section \<open>Properties of the evaluation\<close>

lemma fit_nonempty: "RandomForestRegressor_fit lib X y = Inr model \<Longrightarrow> X \<noteq> []"
  by (auto simp: RandomForestRegressor_fit_def and_then_Inr check_array_def split: if_splits)

lemma pairs_nth: "Suc t < length xs \<Longrightarrow> butlast xs ! t = xs ! t \<and> tl xs ! t = xs ! Suc t"
  by (simp add: nth_butlast nth_tl)

text \<open>
  C2. Whenever the evaluation of a normalized series gives its three metrics, the series
  splits into a training slice followed by a tail of exactly 30 points; the forest was
  fitted on the pairs of the training slice and predicted on the inputs of the tail, a
  pair being the value at \<open>t\<close> and the value at \<open>t + 1\<close> of the same slice; and
  each metric is the score of that prediction against the 29 targets of the tail, which
  are points of the series after the training slice.
\<close>

theorem walk_forward_split:
  assumes "quality lib norm_data = Inr (mae, mse, r2)"
  shows "\<exists>X_train X_test model pred.
      norm_data = X_train @ X_test \<and> length X_test = 30
    \<and> RandomForestRegressor_fit lib (butlast X_train) (tl X_train) = Inr model
    \<and> (\<forall>t. Suc t < length X_train \<longrightarrow>
          butlast X_train ! t = X_train ! t \<and> tl X_train ! t = X_train ! Suc t)
    \<and> model_predict lib model (butlast X_test) = Inr pred
    \<and> (\<forall>t. Suc t < length X_test \<longrightarrow>
          butlast X_test ! t = X_test ! t \<and> tl X_test ! t = X_test ! Suc t)
    \<and> score (mean_absolute_error lib) (tl X_test) pred = Inr mae
    \<and> score (mean_squared_error lib) (tl X_test) pred = Inr mse
    \<and> score (r2_score lib) (tl X_test) pred = Inr r2
    \<and> length (tl X_test) = 29
    \<and> (\<forall>j<29. tl X_test ! j = norm_data ! (length X_train + Suc j))"
proof -
  let ?tr = "slice_upto_neg 30 norm_data"
  let ?te = "slice_from_neg 30 norm_data"
  from assms obtain model pred where
    fit: "RandomForestRegressor_fit lib (butlast ?tr) (tl ?tr) = Inr model" and
    prd: "model_predict lib model (butlast ?te) = Inr pred" and
    m1: "score (mean_absolute_error lib) (tl ?te) pred = Inr mae" and
    m2: "score (mean_squared_error lib) (tl ?te) pred = Inr mse" and
    m3: "score (r2_score lib) (tl ?te) pred = Inr r2"
    by (auto simp: quality_def Let_def and_then_Inr)
  from fit_nonempty [OF fit] have "length (butlast ?tr) \<noteq> 0"
    by (simp only: length_0_conv not_False_eq_True)
  then have "2 \<le> length ?tr"
    unfolding length_butlast by arith
  then have len: "32 \<le> length norm_data"
    by (simp add: slice_upto_neg_def)
  have app: "norm_data = ?tr @ ?te"
    by (simp add: slice_upto_neg_def slice_from_neg_def)
  have l30: "length ?te = 30"
    using len by (simp add: slice_from_neg_def)
  have tgt: "\<forall>j<29. tl ?te ! j = norm_data ! (length ?tr + Suc j)"
    using len by (auto simp: nth_tl slice_from_neg_def slice_upto_neg_def)
  have l29: "length (tl ?te) = 29"
    using l30 by simp
  have p1: "\<forall>t. Suc t < length ?tr \<longrightarrow>
      butlast ?tr ! t = ?tr ! t \<and> tl ?tr ! t = ?tr ! Suc t"
    by (simp add: pairs_nth)
  have p2: "\<forall>t. Suc t < length ?te \<longrightarrow>
      butlast ?te ! t = ?te ! t \<and> tl ?te ! t = ?te ! Suc t"
    by (simp add: pairs_nth)
  show ?thesis
    by (rule exI [of _ ?tr], rule exI [of _ ?te], rule exI [of _ model], rule exI [of _ pred])
      (intro conjI app l30 fit p1 prd p2 m1 m2 m3 l29 tgt)
qed

theorem walk_forward_split_witness:
  "quality example_library (map (\<lambda>n. Finite (real n)) [0..<40]) = Inr (1, 1, - 28)
   \<and> (\<exists>X_train X_test. map (\<lambda>n. Finite (real n)) [0..<40] = X_train @ X_test
         \<and> length X_test = 30)"
proof -
  have q: "quality example_library (map (\<lambda>n. Finite (real n)) [0..<40]) = Inr (1, 1, - 28)"
    by (simp add: quality_def example_library_def slice_upto_neg_def slice_from_neg_def
        RandomForestRegressor_fit_def check_array_def Let_def mean_def model_predict_def
        score_def upt_rec)
  from walk_forward_split [OF q] have
    "\<exists>X_train X_test. map (\<lambda>n. Finite (real n)) [0..<40] = X_train @ X_test
         \<and> length X_test = 30"
    by blast
  with q show ?thesis
    by blast
qed

lemma quality_short: "length norm_data < 32 \<Longrightarrow> quality lib norm_data = Inl ValueError"
proof -
  assume "length norm_data < 32"
  then have "length (butlast (slice_upto_neg 30 norm_data)) = 0"
    by (simp add: slice_upto_neg_def)
  then have "butlast (slice_upto_neg 30 norm_data) = []"
    by (simp only: length_0_conv)
  then show ?thesis
    by (simp add: quality_def Let_def RandomForestRegressor_fit_def check_array_def)
qed

lemma normalization_error:
  "evaluate_normalization lib X method = Inl e \<Longrightarrow> e = ValueError"
  by (cases "stats_boxcox (boxcox_normmax lib) (map add_1e_6 X)")
    (auto simp: evaluate_normalization_def StandardScaler_fit_transform_def
      MinMaxScaler_fit_transform_def stats_boxcox_def Let_def split: if_splits)

text \<open>A series of fewer than 32 points is never scored: its training slice has no pair.\<close>

lemma evaluate_short:
  assumes "length data < 32"
  shows "evaluate_method lib i data m = Inl ValueError"
proof (cases "evaluate_normalization lib data m")
  case (Inl e)
  with normalization_error [OF Inl] show ?thesis
    by (simp add: evaluate_method_def)
next
  case (Inr norm_data)
  with assms length_normalization [OF Inr] have "quality lib norm_data = Inl ValueError"
    by (simp add: quality_short)
  with Inr show ?thesis
    by (simp add: evaluate_method_def)
qed

lemma stage_raises_iff:
  "stage_raises lib d m \<longleftrightarrow> (\<exists>e. evaluate_method lib i d m = Inl e)"
proof (cases "evaluate_normalization lib d m")
  case (Inl e)
  then show ?thesis
    by (simp add: stage_raises_def evaluate_method_def)
next
  case norm: (Inr norm_data)
  let ?tr = "slice_upto_neg 30 norm_data"
  let ?te = "slice_from_neg 30 norm_data"
  show ?thesis
  proof (cases "RandomForestRegressor_fit lib (butlast ?tr) (tl ?tr)")
    case (Inl e)
    with norm show ?thesis
      by (simp add: stage_raises_def evaluate_method_def quality_def Let_def)
  next
    case fit: (Inr model)
    show ?thesis
    proof (cases "model_predict lib model (butlast ?te)")
      case (Inl e)
      with norm fit show ?thesis
        by (simp add: stage_raises_def evaluate_method_def quality_def Let_def)
    next
      case pred: (Inr pred)
      from norm fit pred show ?thesis
        by (cases "score (mean_absolute_error lib) (tl ?te) pred";
            cases "score (mean_squared_error lib) (tl ?te) pred";
            cases "score (r2_score lib) (tl ?te) pred")
          (simp_all add: stage_raises_def evaluate_method_def quality_def Let_def)
    qed
  qed
qed

lemma try_method_eq:
  "try_method lib i d m results =
     results @ (case evaluate_method lib i d m of Inl e \<Rightarrow> [] | Inr (norm_data, row) \<Rightarrow> [row])"
  by (simp add: try_method_def Let_def split: sum.splits prod.splits)

lemma fold_try:
  "fold (try_method lib i d) ms results =
     results @ concat (map (\<lambda>m.
       case evaluate_method lib i d m of Inl e \<Rightarrow> [] | Inr (norm_data, row) \<Rightarrow> [row]) ms)"
  by (induction ms arbitrary: results) (simp_all add: try_method_eq)

lemma collect_results_eq:
  "\<forall>i\<in>set instruments. read_csv lib i = Inr (data i) \<Longrightarrow>
   collect_results lib instruments results =
     Inr (results @ concat (map (\<lambda>i. concat (map (\<lambda>m.
        case evaluate_method lib i (data i) m of Inl e \<Rightarrow> [] | Inr (norm_data, row) \<Rightarrow> [row])
        methods)) instruments))"
  by (induction instruments arbitrary: results) (auto simp: fold_try)

lemma evaluate_method_row:
  "evaluate_method lib i d m = Inr (norm_data, row) \<Longrightarrow> row_instrument row = i \<and> row_method row = m"
  by (auto simp: evaluate_method_def and_then_Inr)

subsection \<open>The example library, evaluated\<close>

lemma replicate_32: "replicate 32 x = [x, x, x, x, x, x, x, x, x, x, x, x, x, x, x, x, x, x, x, x, x, x, x, x, x, x, x, x, x, x, x, x]"
  by (simp add: eval_nat_numeral)

lemma example_read:
  "read_csv example_library ''NVDA'' = Inr (replicate 32 5)"
  "read_csv example_library ''COIN'' = Inr [1, 2, 3]"
  by (simp_all add: example_library_def)

lemma quality_flat: "quality example_library (replicate 32 (Finite c)) = Inr (0, 0, 1)"
  unfolding replicate_32
  by (simp add: quality_def example_library_def slice_upto_neg_def slice_from_neg_def
      RandomForestRegressor_fit_def check_array_def Let_def mean_def model_predict_def score_def)

lemma normalization_flat:
  "evaluate_normalization example_library (replicate 32 5) ''Z-Score'' = Inr (replicate 32 (Finite 0))"
  "evaluate_normalization example_library (replicate 32 5) ''Min-Max'' = Inr (replicate 32 (Finite 0))"
  "evaluate_normalization example_library (replicate 32 5) ''Box-Cox'' = Inl ValueError"
  "evaluate_normalization example_library (replicate 32 5) ''Log'' =
     Inr (replicate 32 (Finite (ln (add_1e_6 5))))"
  unfolding replicate_32 using add_1e_6_pos [of 5]
  by (simp_all add: evaluate_normalization_def StandardScaler_fit_transform_def
      MinMaxScaler_fit_transform_def stats_boxcox_def handle_zeros_in_scale_def mean_def np_log_def)

lemma evaluate_flat:
  "evaluate_method example_library i (replicate 32 5) ''Z-Score'' =
     Inr (replicate 32 (Finite 0),
       \<lparr>row_instrument = i, row_method = ''Z-Score'', MAE = 0, MSE = 0, R2 = 1\<rparr>)"
  "evaluate_method example_library i (replicate 32 5) ''Min-Max'' =
     Inr (replicate 32 (Finite 0),
       \<lparr>row_instrument = i, row_method = ''Min-Max'', MAE = 0, MSE = 0, R2 = 1\<rparr>)"
  "evaluate_method example_library i (replicate 32 5) ''Box-Cox'' = Inl ValueError"
  "evaluate_method example_library i (replicate 32 5) ''Log'' =
     Inr (replicate 32 (Finite (ln (add_1e_6 5))),
       \<lparr>row_instrument = i, row_method = ''Log'', MAE = 0, MSE = 0, R2 = 1\<rparr>)"
  by (simp_all add: evaluate_method_def normalization_flat quality_flat)

subsection \<open>Failures inside the \<open>try\<close>\<close>

text \<open>
  C6. When the files of the instruments can be read, the two loops end with a leaderboard
  whatever raises in the normalization, the fit, the prediction or the scoring of a
  method. The leaderboard is, in the order of the loops, the rows of the evaluations that
  did not raise, each computed from its own instrument, data and method; and it has a
  row for an instrument and a method exactly when these are in the loops and no stage of
  that evaluation raised. (A failure of the write that follows the row does not remove
  the row.)
\<close>

theorem failures_are_skipped:
  assumes reads: "\<forall>i\<in>set instruments. read_csv lib i = Inr (data i)"
  shows "\<exists>leaderboard. collect_results lib instruments [] = Inr leaderboard
     \<and> leaderboard = concat (map (\<lambda>i. concat (map (\<lambda>m.
          case evaluate_method lib i (data i) m of
            Inl e \<Rightarrow> [] | Inr (norm_data, row) \<Rightarrow> [row]) methods)) instruments)
     \<and> (\<forall>i m. (\<exists>row\<in>set leaderboard. row_instrument row = i \<and> row_method row = m)
            \<longleftrightarrow> (i \<in> set instruments \<and> m \<in> set methods \<and> \<not> stage_raises lib (data i) m))"
proof -
  let ?rows = "\<lambda>i m. case evaluate_method lib i (data i) m of
      Inl e \<Rightarrow> [] | Inr (norm_data, row) \<Rightarrow> [row]"
  let ?board = "concat (map (\<lambda>i. concat (map (?rows i) methods)) instruments)"
  have c: "collect_results lib instruments [] = Inr ?board"
    using collect_results_eq [OF reads, of "[]"] by simp
  have mem: "row \<in> set ?board \<longleftrightarrow>
      (\<exists>i\<in>set instruments. \<exists>m\<in>set methods. \<exists>norm_data.
          evaluate_method lib i (data i) m = Inr (norm_data, row))" for row
    by (auto split: sum.splits prod.splits) (metis, metis)
  have ok: "(\<exists>norm_data row. evaluate_method lib i (data i) m = Inr (norm_data, row))
      \<longleftrightarrow> \<not> stage_raises lib (data i) m" for i m
    unfolding stage_raises_iff [of lib "data i" m i]
    by (cases "evaluate_method lib i (data i) m") auto
  have "(\<exists>row\<in>set ?board. row_instrument row = i \<and> row_method row = m)
            \<longleftrightarrow> (i \<in> set instruments \<and> m \<in> set methods \<and> \<not> stage_raises lib (data i) m)" for i m
    unfolding Bex_def mem ok [symmetric] using evaluate_method_row by blast
  with c show ?thesis
    by blast
qed

theorem failures_are_skipped_witness:
  "collect_results example_library [''NVDA'', ''COIN''] [] =
     Inr [\<lparr>row_instrument = ''NVDA'', row_method = ''Z-Score'', MAE = 0, MSE = 0, R2 = 1\<rparr>,
          \<lparr>row_instrument = ''NVDA'', row_method = ''Min-Max'', MAE = 0, MSE = 0, R2 = 1\<rparr>,
          \<lparr>row_instrument = ''NVDA'', row_method = ''Log'', MAE = 0, MSE = 0, R2 = 1\<rparr>]
   \<and> stage_raises example_library (replicate 32 5) ''Box-Cox''
   \<and> stage_raises example_library [1, 2, 3] ''Z-Score''"
proof -
  let ?data = "\<lambda>i. if i = ''NVDA'' then replicate 32 5 else [1, 2, 3 :: real]"
  have reads: "\<forall>i\<in>set [''NVDA'', ''COIN'']. read_csv example_library i = Inr (?data i)"
    by (simp add: example_read)
  from failures_are_skipped [OF reads] have
    "collect_results example_library [''NVDA'', ''COIN''] [] =
       Inr (concat (map (\<lambda>i. concat (map (\<lambda>m.
          case evaluate_method example_library i (?data i) m of
            Inl e \<Rightarrow> [] | Inr (norm_data, row) \<Rightarrow> [row])
          methods)) [''NVDA'', ''COIN'']))"
    by blast
  then have "collect_results example_library [''NVDA'', ''COIN''] [] =
     Inr [\<lparr>row_instrument = ''NVDA'', row_method = ''Z-Score'', MAE = 0, MSE = 0, R2 = 1\<rparr>,
          \<lparr>row_instrument = ''NVDA'', row_method = ''Min-Max'', MAE = 0, MSE = 0, R2 = 1\<rparr>,
          \<lparr>row_instrument = ''NVDA'', row_method = ''Log'', MAE = 0, MSE = 0, R2 = 1\<rparr>]"
    by (simp add: methods_def evaluate_flat evaluate_short)
  moreover have "stage_raises example_library (replicate 32 5) ''Box-Cox''"
    by (simp add: stage_raises_iff [of _ _ _ "''NVDA''"] evaluate_flat)
  moreover have "stage_raises example_library [1, 2, 3] ''Z-Score''"
    by (simp add: stage_raises_iff [of _ _ _ "''COIN''"] evaluate_short)
  ultimately show ?thesis
    by blast
qed

section \<open>Properties of the selection\<close>

lemma fold_argmax_max:
  fixes f :: "nat \<Rightarrow> real"
  shows "\<forall>j\<in>set (b # rest). f j \<le> f (fold (\<lambda>j best. if f best < f j then j else best) rest b)"
proof (induction rest arbitrary: b)
  case Nil
  show ?case by simp
next
  case (Cons a rest)
  show ?case
  proof (cases "f b < f a")
    case True
    with Cons.IH [of a] show ?thesis by auto
  next
    case False
    with Cons.IH [of b] show ?thesis by auto
  qed
qed

lemma fold_argmax_first:
  fixes f :: "nat \<Rightarrow> real"
  assumes "fold (\<lambda>j best. if f best < f j then j else best) rest b = r"
  shows "\<exists>pre post. b # rest = pre @ r # post \<and> (\<forall>j\<in>set pre. f j < f r)"
  using assms
proof (induction rest arbitrary: b)
  case Nil
  then have "b # [] = [] @ r # []" by simp
  moreover have "\<forall>j\<in>set []. f j < f r" by simp
  ultimately show ?case by blast
next
  case (Cons a rest)
  let ?g = "\<lambda>j best. if f best < f j then j else best"
  show ?case
  proof (cases "f b < f a")
    case True
    with Cons.prems have r: "fold ?g rest a = r" by simp
    from Cons.IH [OF r] obtain pre post where
      d: "a # rest = pre @ r # post" and lt: "\<forall>j\<in>set pre. f j < f r"
      by blast
    have "f a \<le> f r" using fold_argmax_max [of a rest f] r by simp
    with True have "f b < f r" by simp
    with lt have "\<forall>j\<in>set (b # pre). f j < f r" by simp
    moreover from d have "b # a # rest = (b # pre) @ r # post" by simp
    ultimately show ?thesis by blast
  next
    case False
    with Cons.prems have r: "fold ?g rest b = r" by simp
    from Cons.IH [OF r] obtain pre post where
      d: "b # rest = pre @ r # post" and lt: "\<forall>j\<in>set pre. f j < f r"
      by blast
    show ?thesis
    proof (cases pre)
      case Nil
      with d have "b # a # rest = [] @ r # a # rest" by simp
      moreover have "\<forall>j\<in>set []. f j < f r" by simp
      ultimately show ?thesis by blast
    next
      case (Cons b' pre2)
      with d have b': "b' = b" and rest: "rest = pre2 @ r # post"
        by simp_all
      from lt Cons b' have "f b < f r" by simp
      with False have "f a < f r" by simp
      with lt Cons b' have "\<forall>j\<in>set (b # a # pre2). f j < f r" by simp
      moreover from rest have "b # a # rest = (b # a # pre2) @ r # post" by simp
      ultimately show ?thesis by blast
    qed
  qed
qed


lemma idxmax_props:
  fixes f :: "nat \<Rightarrow> real"
  assumes ne: "labels \<noteq> []" and srt: "sorted labels" and dst: "distinct labels"
  shows "idxmax f labels \<in> set labels"
    and "\<forall>j\<in>set labels. f j \<le> f (idxmax f labels)"
    and "\<forall>j\<in>set labels. j < idxmax f labels \<longrightarrow> f j < f (idxmax f labels)"
proof -
  from ne obtain b rest where l: "labels = b # rest"
    by (cases labels) auto
  let ?r = "idxmax f labels"
  have r: "fold (\<lambda>j best. if f best < f j then j else best) rest b = ?r"
    by (simp add: l)
  from fold_argmax_first [OF r] obtain pre post where
    d: "labels = pre @ ?r # post" and lt: "\<forall>j\<in>set pre. f j < f ?r"
    unfolding l by blast
  from d show "?r \<in> set labels"
    by (metis in_set_conv_decomp)
  from fold_argmax_max [of b rest f] show "\<forall>j\<in>set labels. f j \<le> f ?r"
    by (simp add: l)
  show "\<forall>j\<in>set labels. j < ?r \<longrightarrow> f j < f ?r"
  proof (intro ballI impI)
    fix j assume j: "j \<in> set labels" and less: "j < ?r"
    from srt d have "\<forall>x\<in>set post. ?r \<le> x"
      by (metis sorted_append sorted_simps(2))
    with less have "j \<notin> set post" by auto
    with j less d have "j \<in> set pre"
      by (metis Un_iff less_irrefl set_ConsD set_append)
    with lt show "f j < f ?r" by blast
  qed
qed

text \<open>
  C3. On a leaderboard that is not empty the selection returns one row for each
  instrument of the leaderboard and no other row. Each returned row is a row of the
  leaderboard whose R2 is at least the R2 of every row of its instrument, and greater
  than the R2 of every row of its instrument that comes before it: among the rows of
  maximal R2 the first wins.
\<close>

theorem select_best_winners:
  assumes "results \<noteq> []"
  shows "\<exists>best. select_best results = Inr best
    \<and> map row_instrument best = sort (remdups (map row_instrument results))
    \<and> distinct (map row_instrument best)
    \<and> row_instrument ` set best = row_instrument ` set results
    \<and> (\<forall>w\<in>set best. \<exists>k<length results. w = results ! k
          \<and> (\<forall>j<length results. row_instrument (results ! j) = row_instrument w
                \<longrightarrow> R2 (results ! j) \<le> R2 w)
          \<and> (\<forall>j<k. row_instrument (results ! j) = row_instrument w
                \<longrightarrow> R2 (results ! j) < R2 w))"
proof -
  let ?keys = "sort (remdups (map row_instrument results))"
  let ?labels = "\<lambda>k. filter (\<lambda>i. row_instrument (results ! i) = k) [0..<length results]"
  let ?f = "\<lambda>i. R2 (results ! i)"
  let ?pick = "\<lambda>k. results ! idxmax ?f (?labels k)"
  let ?best = "map ?pick ?keys"
  have sel: "select_best results = Inr ?best"
    using assms by (simp add: select_best_def groupby_instrument_def comp_def)
  have keys: "set ?keys = row_instrument ` set results"
    by simp
  have pick: "\<exists>n<length results. ?pick k = results ! n \<and> row_instrument (results ! n) = k
      \<and> (\<forall>j<length results. row_instrument (results ! j) = k \<longrightarrow> R2 (results ! j) \<le> R2 (results ! n))
      \<and> (\<forall>j<n. row_instrument (results ! j) = k \<longrightarrow> R2 (results ! j) < R2 (results ! n))"
    if k: "k \<in> set ?keys" for k
  proof -
    from k obtain i where "i < length results" "row_instrument (results ! i) = k"
      by (auto simp: in_set_conv_nth)
    then have "i \<in> set (?labels k)" by simp
    then have ne: "?labels k \<noteq> []" by (metis empty_iff list.set(1))
    have srt: "sorted (?labels k)" by (simp add: sorted_wrt_filter)
    have dst: "distinct (?labels k)" by simp
    let ?n = "idxmax ?f (?labels k)"
    note p = idxmax_props [OF ne srt dst, of ?f]
    from p(1) have n: "?n < length results" "row_instrument (results ! ?n) = k"
      by simp_all
    have le: "\<forall>j<length results. row_instrument (results ! j) = k \<longrightarrow> R2 (results ! j) \<le> R2 (results ! ?n)"
      using p(2) by simp
    have lt: "\<forall>j<?n. row_instrument (results ! j) = k \<longrightarrow> R2 (results ! j) < R2 (results ! ?n)"
      using p(3) n(1) by simp
    from n le lt show ?thesis by blast
  qed
  have inst: "map row_instrument ?best = ?keys"
  proof -
    have "map row_instrument ?best = map (\<lambda>k. row_instrument (?pick k)) ?keys"
      by (simp add: comp_def)
    also have "\<dots> = map (\<lambda>k. k) ?keys"
    proof (rule map_cong [OF refl])
      fix k assume "k \<in> set ?keys"
      from pick [OF this] show "row_instrument (?pick k) = k" by auto
    qed
    finally show ?thesis by simp
  qed
  have dist: "distinct (map row_instrument ?best)"
    unfolding inst by simp
  have img: "row_instrument ` set ?best = row_instrument ` set results"
    using arg_cong [OF inst, of set] keys by (simp only: set_map)
  have win: "\<forall>w\<in>set ?best. \<exists>k<length results. w = results ! k
          \<and> (\<forall>j<length results. row_instrument (results ! j) = row_instrument w
                \<longrightarrow> R2 (results ! j) \<le> R2 w)
          \<and> (\<forall>j<k. row_instrument (results ! j) = row_instrument w
                \<longrightarrow> R2 (results ! j) < R2 w)"
  proof
    fix w assume "w \<in> set ?best"
    then obtain k where k: "k \<in> set ?keys" and w: "w = ?pick k" by auto
    from pick [OF k] obtain n where n: "n < length results" "?pick k = results ! n"
      "row_instrument (results ! n) = k"
      "\<forall>j<length results. row_instrument (results ! j) = k \<longrightarrow> R2 (results ! j) \<le> R2 (results ! n)"
      "\<forall>j<n. row_instrument (results ! j) = k \<longrightarrow> R2 (results ! j) < R2 (results ! n)"
      by blast
    have wn: "w = results ! n" using w n(2) by simp
    show "\<exists>k<length results. w = results ! k
          \<and> (\<forall>j<length results. row_instrument (results ! j) = row_instrument w
                \<longrightarrow> R2 (results ! j) \<le> R2 w)
          \<and> (\<forall>j<k. row_instrument (results ! j) = row_instrument w
                \<longrightarrow> R2 (results ! j) < R2 w)"
      unfolding wn n(3) using n(1) n(4) n(5) by blast
  qed
  from sel inst dist img win show ?thesis by blast
qed

theorem select_best_winners_witness:
  "select_best
     [\<lparr>row_instrument = ''NVDA'', row_method = ''Z-Score'', MAE = 1, MSE = 1, R2 = 1 / 2\<rparr>,
      \<lparr>row_instrument = ''COIN'', row_method = ''Z-Score'', MAE = 1, MSE = 1, R2 = 1 / 4\<rparr>,
      \<lparr>row_instrument = ''NVDA'', row_method = ''Min-Max'', MAE = 1, MSE = 1, R2 = 1 / 2\<rparr>,
      \<lparr>row_instrument = ''COIN'', row_method = ''Log'', MAE = 1, MSE = 1, R2 = 3 / 4\<rparr>]
   = Inr [\<lparr>row_instrument = ''COIN'', row_method = ''Log'', MAE = 1, MSE = 1, R2 = 3 / 4\<rparr>,
          \<lparr>row_instrument = ''NVDA'', row_method = ''Z-Score'', MAE = 1, MSE = 1, R2 = 1 / 2\<rparr>]
   \<and> distinct [''COIN'', ''NVDA'']"
proof -
  let ?board =
    "[\<lparr>row_instrument = ''NVDA'', row_method = ''Z-Score'', MAE = 1, MSE = 1, R2 = 1 / 2\<rparr>,
      \<lparr>row_instrument = ''COIN'', row_method = ''Z-Score'', MAE = 1, MSE = 1, R2 = 1 / 4\<rparr>,
      \<lparr>row_instrument = ''NVDA'', row_method = ''Min-Max'', MAE = 1, MSE = 1, R2 = 1 / 2\<rparr>,
      \<lparr>row_instrument = ''COIN'', row_method = ''Log'', MAE = 1, MSE = 1, R2 = 3 / 4\<rparr>]"
  have e: "select_best ?board =
      Inr [\<lparr>row_instrument = ''COIN'', row_method = ''Log'', MAE = 1, MSE = 1, R2 = 3 / 4\<rparr>,
           \<lparr>row_instrument = ''NVDA'', row_method = ''Z-Score'', MAE = 1, MSE = 1, R2 = 1 / 2\<rparr>]"
    by (simp add: select_best_def groupby_instrument_def upt_rec)
  from select_best_winners [of ?board] obtain best where
    "select_best ?board = Inr best" and "distinct (map row_instrument best)"
    by blast
  with e show ?thesis
    by simp
qed

subsection \<open>The empty leaderboard\<close>

text \<open>
  C7. The selection raises \<open>KeyError\<close> on the empty leaderboard. The example library
  reaches it: the only instrument, \<open>COIN\<close>, has a file of three closes, every method
  fails on it, and \<open>normalize_data\<close> ends with the \<open>KeyError\<close>.
\<close>

theorem empty_leaderboard_raises:
  "select_best [] = Inl KeyError
   \<and> collect_results example_library [''COIN''] [] = Inr []
   \<and> normalize_data example_library [''COIN''] = Inl KeyError"
  by (simp add: normalize_data_def select_best_def example_read methods_def try_method_eq
      evaluate_short)

end
